theory Spec2Isabelle
  imports Complex_Main
begin

section \<open>Fixed-size matrices: storage and element access\<close>

text \<open>
  The class \<open>Mat<N, M, T>\<close> holds its \<open>N * M\<close> coefficients in one flat buffer \<open>m_\<close> (here \<open>m_buf\<close>).
  The storage order is column-major (the macro \<open>MATRIX_ROW_MAJOR\<close> is commented out),
  so element \<open>(row, col)\<close> lives in slot \<open>col * N + row\<close>.  The template parameters
  \<open>N\<close> and \<open>M\<close> become the fields \<open>nrows\<close> and \<open>ncols\<close>; the scalar type \<open>T\<close> is a
  type variable.
\<close>

record 'a Mat =
  nrows :: nat
  ncols :: nat
  m_buf :: "'a list"

text \<open>\<open>operator()(row, col) const\<close>: the asserted precondition is \<open>row < N\<close>, \<open>col < M\<close>.\<close>

definition mat_at :: "'a Mat \<Rightarrow> nat \<Rightarrow> nat \<Rightarrow> 'a" where
  "mat_at m row col = m_buf m ! (col * nrows m + row)"

text \<open>Assignment through the reference returned by the non-const \<open>operator()(row, col)\<close>.\<close>

definition mat_set :: "'a Mat \<Rightarrow> nat \<Rightarrow> nat \<Rightarrow> 'a \<Rightarrow> 'a Mat" where
  "mat_set m row col v = m\<lparr>m_buf := (m_buf m)[col * nrows m + row := v]\<rparr>"

text \<open>
  The defaulted constructor \<open>Mat()\<close> leaves the coefficients indeterminate; the buffer
  of the model holds the unspecified value \<open>undefined\<close> in every slot.
\<close>

definition Mat_default :: "nat \<Rightarrow> nat \<Rightarrow> 'a Mat" where
  "Mat_default N M = \<lparr>nrows = N, ncols = M, m_buf = replicate (N * M) undefined\<rparr>"

text \<open>The invariant of the class: the buffer has exactly \<open>N * M\<close> slots.\<close>

definition mat_ok :: "'a Mat \<Rightarrow> bool" where
  "mat_ok m \<longleftrightarrow> length (m_buf m) = nrows m * ncols m"

text \<open>\<open>Mat(T s)\<close>: diagonal elements \<open>s\<close>, all others zero.\<close>

definition Mat_fill :: "nat \<Rightarrow> nat \<Rightarrow> 'a::zero \<Rightarrow> 'a Mat" where
  "Mat_fill N M s =
     fold (\<lambda>i. fold (\<lambda>j this.
             if i = j then mat_set this i j s else mat_set this i j 0) [0..<M])
          [0..<N] (Mat_default N M)"

text \<open>\<open>Mat::identity()\<close>.\<close>

definition identity :: "nat \<Rightarrow> nat \<Rightarrow> 'a::{zero,one} Mat" where
  "identity N M =
     fold (\<lambda>i. fold (\<lambda>j result.
             if i = j then mat_set result i j 1 else mat_set result i j 0) [0..<M])
          [0..<N] (Mat_default N M)"

text \<open>\<open>transpose(const Mat<N, M, T>&)\<close>: the result has shape \<open>M\<close> by \<open>N\<close>.\<close>

definition transpose_Mat :: "'a Mat \<Rightarrow> 'a Mat" where
  "transpose_Mat m =
     fold (\<lambda>i. fold (\<lambda>j result. mat_set result j i (mat_at m i j)) [0..<ncols m])
          [0..<nrows m] (Mat_default (ncols m) (nrows m))"

section \<open>Scalars\<close>

text \<open>
  The scalar type \<open>T\<close> of the templates is a type variable.  The definitions apply to
  it the operations that the code applies to \<open>T\<close> (\<open>0\<close>, \<open>1\<close>, \<open>+\<close>, \<open>-\<close>, \<open>*\<close>,
  \<open>/\<close>, \<open>abs\<close> and the comparisons) and assume no law about them: they describe a
  run on \<open>float\<close> or \<open>double\<close>, where every operation rounds, as well as a run on
  exact numbers.  A theorem stated for an arbitrary scalar type holds for each of these
  arithmetics.  A theorem that needs the laws of arithmetic is stated for the scalars of
  an ordered field, that is for exact arithmetic only, and says so; such a theorem gives
  no bound on the rounding error of a \<open>float\<close> or \<open>double\<close> run.

  The type \<open>flt\<close> below is one arithmetic with the special values of IEEE 754 (the two
  infinities and not-a-number) next to exact finite values, so that a division by zero
  yields an infinity or not-a-number as on the hardware instead of the arbitrary value of
  a total division.  Its finite operations do not round, and signed zeros are not
  distinguished.  It serves to evaluate the functions that may divide by zero on given
  inputs.
\<close>

datatype flt = Fin real | PInf | NInf | NaN

instantiation flt :: "{zero,one,plus,minus,uminus,times,inverse,abs,ord}"
begin

definition zero_flt :: flt where "zero_flt = Fin 0"

definition one_flt :: flt where "one_flt = Fin 1"

fun uminus_flt :: "flt \<Rightarrow> flt" where
  "uminus_flt (Fin x) = Fin (- x)"
| "uminus_flt PInf = NInf"
| "uminus_flt NInf = PInf"
| "uminus_flt NaN = NaN"

fun plus_flt :: "flt \<Rightarrow> flt \<Rightarrow> flt" where
  "plus_flt (Fin x) (Fin y) = Fin (x + y)"
| "plus_flt NaN b = NaN"
| "plus_flt a NaN = NaN"
| "plus_flt PInf NInf = NaN"
| "plus_flt NInf PInf = NaN"
| "plus_flt PInf b = PInf"
| "plus_flt NInf b = NInf"
| "plus_flt a PInf = PInf"
| "plus_flt a NInf = NInf"

definition minus_flt :: "flt \<Rightarrow> flt \<Rightarrow> flt" where
  "minus_flt a b = a + (- b)"

fun times_flt :: "flt \<Rightarrow> flt \<Rightarrow> flt" where
  "times_flt (Fin x) (Fin y) = Fin (x * y)"
| "times_flt NaN b = NaN"
| "times_flt a NaN = NaN"
| "times_flt PInf (Fin y) = (if y = 0 then NaN else if 0 < y then PInf else NInf)"
| "times_flt NInf (Fin y) = (if y = 0 then NaN else if 0 < y then NInf else PInf)"
| "times_flt (Fin x) PInf = (if x = 0 then NaN else if 0 < x then PInf else NInf)"
| "times_flt (Fin x) NInf = (if x = 0 then NaN else if 0 < x then NInf else PInf)"
| "times_flt PInf PInf = PInf"
| "times_flt PInf NInf = NInf"
| "times_flt NInf PInf = NInf"
| "times_flt NInf NInf = PInf"

fun divide_flt :: "flt \<Rightarrow> flt \<Rightarrow> flt" where
  "divide_flt (Fin x) (Fin y) =
     (if y = 0 then (if x = 0 then NaN else if 0 < x then PInf else NInf) else Fin (x / y))"
| "divide_flt NaN b = NaN"
| "divide_flt a NaN = NaN"
| "divide_flt (Fin x) PInf = Fin 0"
| "divide_flt (Fin x) NInf = Fin 0"
| "divide_flt PInf (Fin y) = (if 0 \<le> y then PInf else NInf)"
| "divide_flt NInf (Fin y) = (if 0 \<le> y then NInf else PInf)"
| "divide_flt a b = NaN"

definition inverse_flt :: "flt \<Rightarrow> flt" where
  "inverse_flt a = Fin 1 div a"

fun abs_flt :: "flt \<Rightarrow> flt" where
  "abs_flt (Fin x) = Fin \<bar>x\<bar>"
| "abs_flt PInf = PInf"
| "abs_flt NInf = PInf"
| "abs_flt NaN = NaN"

fun less_flt :: "flt \<Rightarrow> flt \<Rightarrow> bool" where
  "less_flt (Fin x) (Fin y) = (x < y)"
| "less_flt NaN b = False"
| "less_flt a NaN = False"
| "less_flt a NInf = False"
| "less_flt PInf b = False"
| "less_flt NInf b = True"
| "less_flt a PInf = True"

definition less_eq_flt :: "flt \<Rightarrow> flt \<Rightarrow> bool" where
  "less_eq_flt a b \<longleftrightarrow> a < b \<or> (a = b \<and> a \<noteq> NaN)"

instance ..

end

text \<open>The comparison \<open>==\<close> on scalars: not-a-number is equal to nothing.\<close>

definition flt_eq :: "flt \<Rightarrow> flt \<Rightarrow> bool" where
  "flt_eq a b \<longleftrightarrow> a = b \<and> a \<noteq> NaN"

text \<open>\<open>std::sqrt\<close>.\<close>

fun flt_sqrt :: "flt \<Rightarrow> flt" where
  "flt_sqrt (Fin x) = (if x < 0 then NaN else Fin (sqrt x))"
| "flt_sqrt PInf = PInf"
| "flt_sqrt NInf = NaN"
| "flt_sqrt NaN = NaN"

text \<open>\<open>std::isnan(x) || std::isinf(x)\<close>, the test of \<open>has_nan\<close>.\<close>

fun non_finite :: "flt \<Rightarrow> bool" where
  "non_finite (Fin x) = False"
| "non_finite a = True"

section \<open>Vectors\<close>

text \<open>
  The class \<open>Vec<N, T>\<close> is declared in \<open>easy3d/core/vec.h\<close>, which is not among the
  sources at hand.  A vector is modelled as the list of its \<open>N\<close> components.
\<close>

type_synonym 'a Vec = "'a list"

text \<open>
  Modelled from the spec: the constructor \<open>Vec<4, T>(const Vec<3, T>&, T)\<close> of the missing
  \<open>vec.h\<close>.  The vector type is a fixed-size numeric tuple; the documentation of the
  homogeneous product says that the right-hand side is treated as a homogeneous vector
  with \<open>w = 1\<close>, so the constructor appends the scalar as the last component.
\<close>

definition Vec_append :: "'a Vec \<Rightarrow> 'a \<Rightarrow> 'a Vec" where
  "Vec_append v s = v @ [s]"

text \<open>
  Modelled from the spec: \<open>Vec::operator/=(T)\<close> of the missing \<open>vec.h\<close>, componentwise
  arithmetic on the tuple.
\<close>

definition Vec_div_assign :: "'a::inverse Vec \<Rightarrow> 'a \<Rightarrow> 'a Vec" where
  "Vec_div_assign v s = map (\<lambda>x. x / s) v"

text \<open>
  Modelled from the spec: \<open>operator*(const Vec<N, T>&, T)\<close> of the missing \<open>vec.h\<close>,
  componentwise arithmetic on the tuple.
\<close>

definition Vec_scale :: "'a::times Vec \<Rightarrow> 'a \<Rightarrow> 'a Vec" where
  "Vec_scale v s = map (\<lambda>x. x * s) v"

text \<open>
  Modelled from the spec: the constructor \<open>Vec<3, T>(const T*)\<close> of the missing \<open>vec.h\<close>,
  which reads the first three scalars of the array.
\<close>

definition Vec3_of_array :: "'a list \<Rightarrow> 'a Vec" where
  "Vec3_of_array p = take 3 p"

section \<open>Rows, columns and products\<close>

text \<open>\<open>Mat::row(r)\<close>.\<close>

definition row :: "'a Mat \<Rightarrow> nat \<Rightarrow> 'a Vec" where
  "row m r = fold (\<lambda>i result. result[i := mat_at m r i]) [0..<ncols m]
               (replicate (ncols m) undefined)"

text \<open>\<open>Mat::set_row(r, v)\<close>: copies the first \<open>M\<close> components of \<open>v\<close>.\<close>

definition set_row :: "'a Mat \<Rightarrow> nat \<Rightarrow> 'a Vec \<Rightarrow> 'a Mat" where
  "set_row m r v = fold (\<lambda>i this. mat_set this r i (v ! i)) [0..<ncols m] m"

text \<open>\<open>Mat::swap_rows(a, b)\<close>.\<close>

definition swap_rows :: "'a Mat \<Rightarrow> nat \<Rightarrow> nat \<Rightarrow> 'a Mat" where
  "swap_rows m a b =
     fold (\<lambda>i this. let tmp = mat_at this a i
                     in mat_set (mat_set this a i (mat_at this b i)) b i tmp)
       [0..<ncols m] m"

text \<open>\<open>Mat::swap_cols(a, b)\<close>.\<close>

definition swap_cols :: "'a Mat \<Rightarrow> nat \<Rightarrow> nat \<Rightarrow> 'a Mat" where
  "swap_cols m a b =
     fold (\<lambda>i this. let tmp = mat_at this i a
                     in mat_set (mat_set this i a (mat_at this i b)) i b tmp)
       [0..<nrows m] m"

text \<open>\<open>Mat::operator*=(T rhs)\<close>: every slot of the buffer is multiplied by \<open>rhs\<close>.\<close>

definition mat_scale_assign :: "'a::times Mat \<Rightarrow> 'a \<Rightarrow> 'a Mat" where
  "mat_scale_assign m rhs =
     m\<lparr>m_buf := fold (\<lambda>i buf. buf[i := buf ! i * rhs]) [0..<nrows m * ncols m] (m_buf m)\<rparr>"


text \<open>The global \<open>operator*(const Mat3<T>&, const Mat3<T>&)\<close>.\<close>

definition Mat3_mul :: "'a::{zero,plus,times} Mat \<Rightarrow> 'a Mat \<Rightarrow> 'a Mat" where
  "Mat3_mul lhs rhs =
     fold (\<lambda>i. fold (\<lambda>j result.
             fold (\<lambda>k result. mat_set result i j (mat_at result i j + mat_at lhs i k * mat_at rhs k j))
               [0..<3] (mat_set result i j 0))
           [0..<3])
       [0..<3] (Mat_default 3 3)"

text \<open>The non-homogeneous \<open>operator*(const Mat4<T>&, const Vec<4, T>&)\<close>.\<close>

definition Mat4_mul_Vec4 :: "'a::{zero,plus,times} Mat \<Rightarrow> 'a Vec \<Rightarrow> 'a Vec" where
  "Mat4_mul_Vec4 lhs rhs =
     fold (\<lambda>i result.
             fold (\<lambda>j result. result[i := result ! i + mat_at lhs i j * rhs ! j])
               [0..<4] (result[i := 0]))
       [0..<4] (replicate 4 undefined)"

text \<open>The homogeneous \<open>operator*(const Mat4<T>&, const Vec<3, T>&)\<close>.\<close>

definition Mat4_mul_Vec3 :: "'a::{zero,one,plus,times,inverse} Mat \<Rightarrow> 'a Vec \<Rightarrow> 'a Vec" where
  "Mat4_mul_Vec3 lhs rhs =
     (let tmp = Vec_append rhs 1;
          result = Mat4_mul_Vec4 lhs tmp;
          result = Vec_div_assign result (result ! 3)
      in Vec3_of_array result)"

section \<open>Closed-form determinant and inverse\<close>

text \<open>\<open>determinant(const Mat2<T>&)\<close>.\<close>

definition determinant_Mat2 :: "'a::{times,minus} Mat \<Rightarrow> 'a" where
  "determinant_Mat2 m = mat_at m 0 0 * mat_at m 1 1 - mat_at m 0 1 * mat_at m 1 0"



text \<open>
  \<open>inverse(const Mat2<T>&)\<close>: the adjugate times the reciprocal of the determinant,
  with no test of the determinant.
\<close>

definition inverse_Mat2 :: "'a::{one,times,minus,uminus,inverse} Mat \<Rightarrow> 'a Mat" where
  "inverse_Mat2 m =
     (let result = Mat_default 2 2;
          result = mat_set result 0 0 (mat_at m 1 1);
          result = mat_set result 0 1 (- mat_at m 0 1);
          result = mat_set result 1 0 (- mat_at m 1 0);
          result = mat_set result 1 1 (mat_at m 0 0);
          det = determinant_Mat2 m;
          det = 1 / det
      in mat_scale_assign result det)"

section \<open>Rotation from Euler angles\<close>

text \<open>
  \<open>Mat3<T>::rotation(T x, T y, T z, int order)\<close>.  The three axis rotations are filled
  coefficient by coefficient, then composed according to \<open>order\<close>.  The first component
  of the result tells whether \<open>LOG(ERROR) << "invalid rotation order"\<close> was executed.
  The angles are real numbers, \<open>std::cos\<close> and \<open>std::sin\<close> the real functions.
\<close>

definition rotation_Mat3 :: "real \<Rightarrow> real \<Rightarrow> real \<Rightarrow> int \<Rightarrow> bool \<times> real Mat" where
  "rotation_Mat3 x y z order =
     (let rx = fold (\<lambda>(r, c, v) m. mat_set m r c v)
                 [(0, 0, 1), (0, 1, 0),     (0, 2, 0),
                  (1, 0, 0), (1, 1, cos x), (1, 2, - sin x),
                  (2, 0, 0), (2, 1, sin x), (2, 2, cos x)] (Mat_default 3 3);
          ry = fold (\<lambda>(r, c, v) m. mat_set m r c v)
                 [(0, 0, cos y),   (0, 1, 0), (0, 2, sin y),
                  (1, 0, 0),       (1, 1, 1), (1, 2, 0),
                  (2, 0, - sin y), (2, 1, 0), (2, 2, cos y)] (Mat_default 3 3);
          rz = fold (\<lambda>(r, c, v) m. mat_set m r c v)
                 [(0, 0, cos z), (0, 1, - sin z), (0, 2, 0),
                  (1, 0, sin z), (1, 1, cos z),   (1, 2, 0),
                  (2, 0, 0),     (2, 1, 0),       (2, 2, 1)] (Mat_default 3 3)
      in if order = 123 then (False, Mat3_mul (Mat3_mul rz ry) rx)
         else if order = 132 then (False, Mat3_mul (Mat3_mul ry rz) rx)
         else if order = 213 then (False, Mat3_mul (Mat3_mul rz rx) ry)
         else if order = 231 then (False, Mat3_mul (Mat3_mul rx rz) ry)
         else if order = 312 then (False, Mat3_mul (Mat3_mul ry rx) rz)
         else if order = 321 then (False, Mat3_mul (Mat3_mul rx ry) rz)
         else (True, Mat3_mul (Mat3_mul rx rz) ry))"

section \<open>Gauss-Jordan elimination with full pivoting\<close>

text \<open>
  The constant \<open>epsilon<T>()\<close> comes from \<open>easy3d/core/constant.h\<close>, which is not among
  the sources at hand; it is the parameter \<open>eps\<close> of the functions below.

  The variables \<open>maxr\<close> and \<open>maxc\<close> of the pivot search are declared without an
  initial value and assigned together when an element larger than the running maximum
  is met.  When no element of the remaining rows and columns is larger than zero they are
  still unassigned after the search and the code goes on to read them: this is the
  outcome \<open>Uninitialized_index\<close> of the model.
\<close>

datatype undefined_behaviour = Uninitialized_index

text \<open>
  The pivot search of \<open>inverse\<close> and of \<open>gauss_jordan_elimination\<close> (the same loop
  nest in both): the running maximum and the position where it was found, if any.
\<close>

definition pivot_search ::
  "'a::{zero,one,plus,minus,uminus,times,inverse,abs,ord} Mat \<Rightarrow> nat list \<Rightarrow> nat \<Rightarrow> 'a \<times> (nat \<times> nat) option" where
  "pivot_search result ipiv N =
     fold (\<lambda>j st.
            if ipiv ! j \<noteq> 1
            then fold (\<lambda>k (mx, maxrc).
                        if ipiv ! k = 0
                        then (let element = \<bar>mat_at result j k\<bar>
                              in if element > mx then (element, Some (j, k)) else (mx, maxrc))
                        else (mx, maxrc))
                   [0..<N] st
            else st)
       [0..<N] (0, None)"

text \<open>
  The row reduction shared by both functions:
  \<open>for j: if (j != maxc) { dum = m(j, maxc); m(j, maxc) = 0; for k < K: m(j, k) -= m(maxc, k) * dum; }\<close>
  is written out in each of them below.
\<close>

record 'a inverse_state =
  inv_result :: "'a Mat"
  inv_ipiv :: "nat list"
  inv_indxr :: "nat list"
  inv_indxc :: "nat list"

datatype 'a inverse_outcome = Inverse "'a Mat" | Singular_logged "'a Mat"

text \<open>
  One round of the main loop of the generic \<open>inverse\<close>.  The flag of the result is
  \<open>False\<close> when the round executes \<open>return result\<close> after logging
  \<open>"input matrix is singular"\<close>.
\<close>

definition inverse_iter ::
  "'a::{zero,one,plus,minus,uminus,times,inverse,abs,ord} \<Rightarrow> nat \<Rightarrow> nat \<Rightarrow> 'a inverse_state
     \<Rightarrow> undefined_behaviour + bool \<times> 'a inverse_state" where
  "inverse_iter eps N i st =
     (case snd (pivot_search (inv_result st) (inv_ipiv st) N) of
        None \<Rightarrow> Inl Uninitialized_index
      | Some (maxr, maxc) \<Rightarrow>
          let ipiv = (inv_ipiv st)[maxc := inv_ipiv st ! maxc + 1];
              result = (if maxr \<noteq> maxc then swap_rows (inv_result st) maxr maxc
                        else inv_result st);
              indxr = (inv_indxr st)[i := maxr];
              indxc = (inv_indxc st)[i := maxc]
          in if \<bar>mat_at result maxc maxc\<bar> < eps
             then Inr (False, \<lparr>inv_result = result, inv_ipiv = ipiv,
                               inv_indxr = indxr, inv_indxc = indxc\<rparr>)
             else
               let rpivot = 1 / mat_at result maxc maxc;
                   result = mat_set result maxc maxc 1;
                   result = set_row result maxc (Vec_scale (row result maxc) rpivot);
                   result =
                     fold (\<lambda>j result.
                            if j \<noteq> maxc
                            then (let dum = mat_at result j maxc;
                                      result = mat_set result j maxc 0
                                  in fold (\<lambda>k result.
                                       mat_set result j k
                                         (mat_at result j k - mat_at result maxc k * dum))
                                       [0..<N] result)
                            else result)
                       [0..<N] result
               in Inr (True, \<lparr>inv_result = result, inv_ipiv = ipiv,
                                inv_indxr = indxr, inv_indxc = indxc\<rparr>))"

fun inverse_loop ::
  "'a::{zero,one,plus,minus,uminus,times,inverse,abs,ord} \<Rightarrow> nat \<Rightarrow> nat list \<Rightarrow> 'a inverse_state
     \<Rightarrow> undefined_behaviour + bool \<times> 'a inverse_state" where
  "inverse_loop eps N [] st = Inr (True, st)"
| "inverse_loop eps N (i # is) st =
     (case inverse_iter eps N i st of
        Inl e \<Rightarrow> Inl e
      | Inr (False, st') \<Rightarrow> Inr (False, st')
      | Inr (True, st') \<Rightarrow> inverse_loop eps N is st')"

text \<open>
  The generic \<open>inverse(const Mat<N, N, T>&)\<close>.  The final \<open>do ... while\<close> loop undoes
  the column swaps for \<open>i = N - 1\<close> down to \<open>0\<close> (\<open>N\<close> is at least 1: the function
  declares arrays of \<open>N\<close> elements).
\<close>

definition inverse_Mat ::
  "'a::{zero,one,plus,minus,uminus,times,inverse,abs,ord} \<Rightarrow> 'a Mat \<Rightarrow> undefined_behaviour + 'a inverse_outcome" where
  "inverse_Mat eps m =
     (let N = nrows m
      in case inverse_loop eps N [0..<N]
                \<lparr>inv_result = m, inv_ipiv = replicate N 0,
                 inv_indxr = replicate N undefined, inv_indxc = replicate N undefined\<rparr> of
           Inl e \<Rightarrow> Inl e
         | Inr (False, st) \<Rightarrow> Inr (Singular_logged (inv_result st))
         | Inr (True, st) \<Rightarrow>
             Inr (Inverse
               (fold (\<lambda>i result.
                        if inv_indxr st ! i \<noteq> inv_indxc st ! i
                        then swap_cols result (inv_indxr st ! i) (inv_indxc st ! i)
                        else result)
                  (rev [0..<N]) (inv_result st))))"

record 'a gj_state =
  gj_amat :: "'a Mat"
  gj_bmat :: "'a Mat"
  gj_ipiv :: "nat list"
  gj_indxr :: "nat list"
  gj_indxc :: "nat list"

text \<open>
  One round of the main loop of \<open>gauss_jordan_elimination\<close>; \<open>M\<close> is the number of
  right-hand sides.  The flag of the result is \<open>False\<close> when the round executes
  \<open>return false\<close>.
\<close>

definition gj_iter ::
  "'a::{zero,one,plus,minus,uminus,times,inverse,abs,ord} \<Rightarrow> nat \<Rightarrow> nat \<Rightarrow> nat \<Rightarrow> 'a gj_state
     \<Rightarrow> undefined_behaviour + bool \<times> 'a gj_state" where
  "gj_iter eps N M i st =
     (case snd (pivot_search (gj_amat st) (gj_ipiv st) N) of
        None \<Rightarrow> Inl Uninitialized_index
      | Some (maxr, maxc) \<Rightarrow>
          let ipiv = (gj_ipiv st)[maxc := gj_ipiv st ! maxc + 1];
              amat = (if maxr \<noteq> maxc then swap_rows (gj_amat st) maxr maxc else gj_amat st);
              bmat = (if maxr \<noteq> maxc then swap_rows (gj_bmat st) maxr maxc else gj_bmat st);
              indxr = (gj_indxr st)[i := maxr];
              indxc = (gj_indxc st)[i := maxc]
          in if \<bar>mat_at amat maxc maxc\<bar> < eps
             then Inr (False, \<lparr>gj_amat = amat, gj_bmat = bmat, gj_ipiv = ipiv,
                               gj_indxr = indxr, gj_indxc = indxc\<rparr>)
             else
               let rpivot = 1 / mat_at amat maxc maxc;
                   amat = mat_set amat maxc maxc 1;
                   amat = set_row amat maxc (Vec_scale (row amat maxc) rpivot);
                   bmat = set_row bmat maxc (Vec_scale (row bmat maxc) rpivot);
                   (amat, bmat) =
                     fold (\<lambda>j (amat, bmat).
                            if j \<noteq> maxc
                            then (let dum = mat_at amat j maxc;
                                      amat = mat_set amat j maxc 0;
                                      amat = fold (\<lambda>k amat.
                                               mat_set amat j k
                                                 (mat_at amat j k - mat_at amat maxc k * dum))
                                               [0..<N] amat;
                                      bmat = fold (\<lambda>k bmat.
                                               mat_set bmat j k
                                                 (mat_at bmat j k - mat_at bmat maxc k * dum))
                                               [0..<M] bmat
                                  in (amat, bmat))
                            else (amat, bmat))
                       [0..<N] (amat, bmat)
               in Inr (True, \<lparr>gj_amat = amat, gj_bmat = bmat, gj_ipiv = ipiv,
                                gj_indxr = indxr, gj_indxc = indxc\<rparr>))"

fun gj_loop ::
  "'a::{zero,one,plus,minus,uminus,times,inverse,abs,ord} \<Rightarrow> nat \<Rightarrow> nat \<Rightarrow> nat list \<Rightarrow> 'a gj_state
     \<Rightarrow> undefined_behaviour + bool \<times> 'a gj_state" where
  "gj_loop eps N M [] st = Inr (True, st)"
| "gj_loop eps N M (i # is) st =
     (case gj_iter eps N M i st of
        Inl e \<Rightarrow> Inl e
      | Inr (False, st') \<Rightarrow> Inr (False, st')
      | Inr (True, st') \<Rightarrow> gj_loop eps N M is st')"

text \<open>
  \<open>gauss_jordan_elimination(a, b, ainv, x)\<close>.  The arguments \<open>ainv0\<close> and \<open>x0\<close> are
  the contents of the buffers \<open>*ainv\<close> and \<open>*x\<close> before the call; the result holds the
  returned flag and their contents after the call.  The first statements of the function
  assign \<open>a\<close> to \<open>*ainv\<close> and \<open>b\<close> to \<open>*x\<close>.
\<close>

definition gj_init :: "'a Mat \<Rightarrow> 'a Mat \<Rightarrow> 'a Mat \<Rightarrow> 'a Mat \<Rightarrow> 'a gj_state" where
  "gj_init a b ainv0 x0 =
     (let amat = ainv0; amat = a; bmat = x0; bmat = b
      in \<lparr>gj_amat = amat, gj_bmat = bmat, gj_ipiv = replicate (nrows a) 0,
          gj_indxr = replicate (nrows a) undefined, gj_indxc = replicate (nrows a) undefined\<rparr>)"

definition gauss_jordan_elimination ::
  "'a::{zero,one,plus,minus,uminus,times,inverse,abs,ord} \<Rightarrow> 'a Mat \<Rightarrow> 'a Mat \<Rightarrow> 'a Mat \<Rightarrow> 'a Mat
     \<Rightarrow> undefined_behaviour + bool \<times> 'a Mat \<times> 'a Mat" where
  "gauss_jordan_elimination eps a b ainv0 x0 =
     (let N = nrows a; M = ncols b
      in case gj_loop eps N M [0..<N] (gj_init a b ainv0 x0) of
           Inl e \<Rightarrow> Inl e
         | Inr (False, st) \<Rightarrow> Inr (False, gj_amat st, gj_bmat st)
         | Inr (True, st) \<Rightarrow>
             Inr (True,
               fold (\<lambda>i amat.
                       if gj_indxr st ! i \<noteq> gj_indxc st ! i
                       then swap_cols amat (gj_indxr st ! i) (gj_indxc st ! i)
                       else amat)
                 (rev [0..<N]) (gj_amat st),
               gj_bmat st))"

section \<open>LU decomposition and the generic determinant\<close>

text \<open>
  The constant \<open>min<T>()\<close> also comes from the missing \<open>constant.h\<close>; it is the
  parameter \<open>tiny\<close>.
\<close>

text \<open>The first loop: the implicit scaling of each row; \<open>None\<close> is \<open>return false\<close>.\<close>

fun lu_scaling ::
  "'a::{zero,one,plus,minus,uminus,times,inverse,abs,ord} \<Rightarrow> nat \<Rightarrow> 'a Mat \<Rightarrow> nat list \<Rightarrow> 'a Vec \<Rightarrow> 'a Vec option" where
  "lu_scaling tiny N amat [] scalev = Some scalev"
| "lu_scaling tiny N amat (i # is) scalev =
     (let mx = fold (\<lambda>j mx. let element = \<bar>mat_at amat i j\<bar>
                            in if element > mx then element else mx) [0..<N] 0
      in if \<bar>mx\<bar> < tiny then None
         else lu_scaling tiny N amat is (scalev[i := 1 / mx]))"

text \<open>
  \<open>static_cast<T>(n)\<close> for an index \<open>n\<close>: the scalar \<open>n\<close>, written as
  \<open>0 + 1 + ... + 1\<close>.  In \<open>float\<close> and \<open>double\<close> each of these sums is exact for
  every index below \<open>2^24\<close>, so this is the value of the conversion.
\<close>

primrec cast_of_nat :: "nat \<Rightarrow> 'a::{zero,one,plus}" where
  "cast_of_nat 0 = 0"
| "cast_of_nat (Suc n) = cast_of_nat n + 1"

record 'a lu_state =
  lu_amat :: "'a Mat"
  lu_scalev :: "'a Vec"
  lu_rowp :: "'a Vec"
  lu_d :: 'a

text \<open>
  One round of the loop over the columns.  The variable \<open>imax\<close> is declared without an
  initial value; it is assigned in the search below the diagonal.
\<close>

definition lu_column ::
  "'a::{zero,one,plus,minus,uminus,times,inverse,abs,ord} \<Rightarrow> nat \<Rightarrow> nat \<Rightarrow> 'a lu_state
     \<Rightarrow> undefined_behaviour + bool \<times> 'a lu_state" where
  "lu_column eps N j st =
     (let amat = lu_amat st;
          amat = fold (\<lambda>i amat.
                   let sum = fold (\<lambda>k sum. sum - mat_at amat i k * mat_at amat k j)
                               [0..<i] (mat_at amat i j)
                   in mat_set amat i j sum)
                 [0..<j] amat;
          (amat, mx, imax) =
             fold (\<lambda>i (amat, mx, imax).
                   let sum = fold (\<lambda>k sum. sum - mat_at amat i k * mat_at amat k j)
                               [0..<j] (mat_at amat i j);
                       amat = mat_set amat i j sum;
                       dum = lu_scalev st ! i * \<bar>sum\<bar>
                   in if dum \<ge> mx then (amat, dum, Some i) else (amat, mx, imax))
               [j..<N] (amat, 0, None)
      in case imax of
           None \<Rightarrow> Inl Uninitialized_index
         | Some imax \<Rightarrow>
             let (amat, scalev, d) =
                   (if j \<noteq> imax
                    then (swap_rows amat imax j, (lu_scalev st)[imax := lu_scalev st ! j],
                          - lu_d st)
                    else (amat, lu_scalev st, lu_d st));
                 rowp = (lu_rowp st)[j := cast_of_nat imax]
             in if \<bar>mat_at amat j j\<bar> < eps
                then Inr (False, \<lparr>lu_amat = amat, lu_scalev = scalev, lu_rowp = rowp, lu_d = d\<rparr>)
                else
                  let amat =
                        (if j \<noteq> N
                         then (let dum = 1 / mat_at amat j j
                               in fold (\<lambda>i amat. mat_set amat i j (mat_at amat i j * dum))
                                    [j + 1..<N] amat)
                         else amat)
                  in Inr (True, \<lparr>lu_amat = amat, lu_scalev = scalev, lu_rowp = rowp, lu_d = d\<rparr>))"

fun lu_loop ::
  "'a::{zero,one,plus,minus,uminus,times,inverse,abs,ord} \<Rightarrow> nat \<Rightarrow> nat list \<Rightarrow> 'a lu_state
     \<Rightarrow> undefined_behaviour + bool \<times> 'a lu_state" where
  "lu_loop eps N [] st = Inr (True, st)"
| "lu_loop eps N (j # js) st =
     (case lu_column eps N j st of
        Inl e \<Rightarrow> Inl e
      | Inr (False, st') \<Rightarrow> Inr (False, st')
      | Inr (True, st') \<Rightarrow> lu_loop eps N js st')"

text \<open>
  \<open>lu_decomposition(a, alu, rowp, d)\<close>: the returned flag and the contents of \<open>*alu\<close>,
  \<open>*rowp\<close> and \<open>*d\<close> after the call; \<open>rowp0\<close> is the content of \<open>*rowp\<close> before it.
\<close>

definition lu_decomposition ::
  "'a::{zero,one,plus,minus,uminus,times,inverse,abs,ord} \<Rightarrow> 'a \<Rightarrow> 'a Mat \<Rightarrow> 'a Vec
     \<Rightarrow> undefined_behaviour + bool \<times> 'a Mat \<times> 'a Vec \<times> 'a" where
  "lu_decomposition eps tiny a rowp0 =
     (let N = nrows a; d = 1; amat = a
      in case lu_scaling tiny N amat [0..<N] (replicate N undefined) of
           None \<Rightarrow> Inr (False, amat, rowp0, d)
         | Some scalev \<Rightarrow>
             (case lu_loop eps N [0..<N]
                     \<lparr>lu_amat = amat, lu_scalev = scalev, lu_rowp = rowp0, lu_d = d\<rparr> of
                Inl e \<Rightarrow> Inl e
              | Inr (ok, st) \<Rightarrow> Inr (ok, lu_amat st, lu_rowp st, lu_d st)))"


section \<open>Cholesky decomposition\<close>

text \<open>
  \<open>cholesky_decompose(A, L)\<close>.  The body of the loop over \<open>k\<close> (for a fixed row
  \<open>j\<close>), acting on the matrix \<open>L\<close>, the accumulator \<open>d\<close> and the flag \<open>spd\<close>:
\<close>

definition cholesky_inner ::
  "flt Mat \<Rightarrow> nat \<Rightarrow> nat \<Rightarrow> flt Mat \<times> flt \<times> bool \<Rightarrow> flt Mat \<times> flt \<times> bool" where
  "cholesky_inner A j k =
     (\<lambda>(L, d, spd).
        let s = fold (\<lambda>i s. s + mat_at L k i * mat_at L j i) [0..<k] 0;
            s = (mat_at A j k - s) / mat_at L k k;
            L = mat_set L j k s;
            d = d + s * s;
            spd = (spd \<and> flt_eq (mat_at A k j) (mat_at A j k))
        in (L, d, spd))"

text \<open>The body of the loop over \<open>j\<close>, acting on \<open>L\<close> and \<open>spd\<close>:\<close>

definition cholesky_row :: "flt Mat \<Rightarrow> nat \<Rightarrow> nat \<Rightarrow> flt Mat \<times> bool \<Rightarrow> flt Mat \<times> bool" where
  "cholesky_row A N j =
     (\<lambda>(L, spd).
        let (L, d, spd) = fold (cholesky_inner A j) [0..<j] (L, 0, spd);
            d = mat_at A j j - d;
            spd = (spd \<and> d > 0);
            L = mat_set L j j (flt_sqrt (if d > 0 then d else 0));
            L = fold (\<lambda>k L. mat_set L j k 0) [j + 1..<N] L
        in (L, spd))"

text \<open>
  The function: \<open>L0\<close> is the content of the output matrix \<open>L\<close> before the call; the
  result is the returned flag \<open>spd\<close> and the content of \<open>L\<close> after it.
\<close>

definition cholesky_decompose :: "flt Mat \<Rightarrow> flt Mat \<Rightarrow> bool \<times> flt Mat" where
  "cholesky_decompose A L0 =
     (let N = nrows A;
          (L, spd) = fold (cholesky_row A N) [0..<N] (L0, True)
      in (spd, L))"

text \<open>
  The diagonal term of row \<open>j\<close>, the value of \<open>d\<close> that is compared with zero and whose
  square root is taken, written in terms of the input \<open>A\<close> and of a factor \<open>L\<close>:
  \<open>A(j, j)\<close> minus the sum of the squares of \<open>L(j, 0), ..., L(j, j - 1)\<close>, accumulated
  from zero in this order.
\<close>

definition cholesky_diag_term :: "flt Mat \<Rightarrow> flt Mat \<Rightarrow> nat \<Rightarrow> flt" where
  "cholesky_diag_term A L j =
     mat_at A j j - fold (\<lambda>k d. d + mat_at L j k * mat_at L j k) [0..<j] 0"

text \<open>
  The coefficient that a round of \<open>gauss_jordan_elimination\<close> compares with
  \<open>epsilon\<close>: the diagonal element \<open>amat(maxc, maxc)\<close> after the row swap, that is
  the chosen pivot.  \<open>gj_pivots\<close> lists the pivots of the rounds that a run executes, in
  order; it follows the run and adds nothing to it.
\<close>

definition gj_pivot :: "'a::{zero,one,plus,minus,uminus,times,inverse,abs,ord} Mat \<Rightarrow> nat \<Rightarrow> nat \<Rightarrow> 'a" where
  "gj_pivot amat maxr maxc =
     mat_at (if maxr \<noteq> maxc then swap_rows amat maxr maxc else amat) maxc maxc"

fun gj_pivots ::
  "'a::{zero,one,plus,minus,uminus,times,inverse,abs,ord} \<Rightarrow> nat \<Rightarrow> nat \<Rightarrow> nat list \<Rightarrow> 'a gj_state \<Rightarrow> 'a list" where
  "gj_pivots eps N M [] st = []"
| "gj_pivots eps N M (i # is) st =
     (case snd (pivot_search (gj_amat st) (gj_ipiv st) N) of
        None \<Rightarrow> []
      | Some (maxr, maxc) \<Rightarrow>
          gj_pivot (gj_amat st) maxr maxc #
          (case gj_iter eps N M i st of
             Inr (True, st') \<Rightarrow> gj_pivots eps N M is st'
           | _ \<Rightarrow> []))"


section \<open>Notions used in the correctness proofs\<close>

text \<open>
  The proofs about the elimination algorithms read a matrix as the function from a row
  and a column index to the coefficient.  \<open>swap_idx a b\<close> exchanges the indices \<open>a\<close> and
  \<open>b\<close>; \<open>mat_vec N R u\<close> is the product of the \<open>N\<close> by \<open>N\<close> matrix \<open>R\<close> and the vector
  \<open>u\<close>.
\<close>

definition swap_idx :: "nat \<Rightarrow> nat \<Rightarrow> nat \<Rightarrow> nat" where
  "swap_idx a b i = (if i = a then b else if i = b then a else i)"














section \<open>Basic facts about element access\<close>

lemma idx_less: "r < N \<Longrightarrow> c < M \<Longrightarrow> c * N + r < N * (M::nat)"
proof -
  assume r: "r < N" and c: "c < M"
  have "c * N + r < c * N + N" using r by simp
  also have "\<dots> = Suc c * N" by simp
  also have "\<dots> \<le> M * N" using c by (intro mult_le_mono1) simp
  finally show ?thesis by (simp add: mult.commute)
qed

lemma idx_inj:
  assumes "r < N" "r' < N" "c * N + r = c' * N + (r'::nat)"
  shows "c = c' \<and> r = r'"
proof -
  have "(c * N + r) div N = c" "(c' * N + r') div N = c'"
    using assms(1,2) by simp_all
  with assms(3) have "c = c'" by metis
  with assms(3) show ?thesis by simp
qed

lemma mat_set_dims [simp]:
  "nrows (mat_set m r c v) = nrows m" "ncols (mat_set m r c v) = ncols m"
  by (simp_all add: mat_set_def)

lemma mat_set_ok [simp]: "mat_ok (mat_set m r c v) = mat_ok m"
  by (simp add: mat_set_def mat_ok_def)

lemma mat_at_set:
  assumes "mat_ok m" "r < nrows m" "c < ncols m" "r' < nrows m" "c' < ncols m"
  shows "mat_at (mat_set m r c v) r' c' = (if r' = r \<and> c' = c then v else mat_at m r' c')"
proof (cases "r' = r \<and> c' = c")
  case True
  then show ?thesis
    using assms idx_less [of r "nrows m" c "ncols m"]
    by (simp add: mat_at_def mat_set_def mat_ok_def)
next
  case False
  then have "c * nrows m + r \<noteq> c' * nrows m + r'"
    using idx_inj [of r "nrows m" r' c c'] assms by auto
  then show ?thesis using False by (auto simp add: mat_at_def mat_set_def)
qed

lemma Mat_default_dims [simp]:
  "nrows (Mat_default N M) = N" "ncols (Mat_default N M) = M" "mat_ok (Mat_default N M)"
  by (simp_all add: Mat_default_def mat_ok_def)

lemma mat_eqI:
  assumes "mat_ok a" "mat_ok b" "nrows a = nrows b" "ncols a = ncols b"
    and "\<And>r c. r < nrows a \<Longrightarrow> c < ncols a \<Longrightarrow> mat_at a r c = mat_at b r c"
  shows "a = (b::'a Mat)"
proof -
  have len: "length (m_buf a) = length (m_buf b)" using assms(1-4) by (simp add: mat_ok_def)
  have "m_buf a ! k = m_buf b ! k" if "k < length (m_buf a)" for k
  proof -
    have k: "k < nrows a * ncols a" using that assms(1) by (simp add: mat_ok_def)
    then have pos: "0 < nrows a" by (cases "nrows a") auto
    have r: "k mod nrows a < nrows a" using pos by simp
    have c: "k div nrows a < ncols a" using k pos by (simp add: less_mult_imp_div_less mult.commute)
    have "mat_at a (k mod nrows a) (k div nrows a) = mat_at b (k mod nrows a) (k div nrows a)"
      using assms(5) [OF r c] .
    then show ?thesis using assms(3) by (simp add: mat_at_def)
  qed
  then have "m_buf a = m_buf b" using len by (simp add: list_eq_iff_nth_eq)
  then show ?thesis using assms(3,4) by simp
qed


text \<open>A nested counting loop visits the pairs of indices in lexicographic order.\<close>

lemma fold_nested:
  "fold (\<lambda>i. fold (g i) ys) xs = fold (\<lambda>p. g (fst p) (snd p)) (List.product xs ys)"
proof (induction xs)
  case Nil
  show ?case by simp
next
  case (Cons x xs)
  have "fold (\<lambda>p. g (fst p) (snd p)) (map (Pair x) ys) = fold (g x) ys"
    by (simp add: fold_map comp_def)
  with Cons show ?case by (simp add: fun_eq_iff)
qed

text \<open>
  A loop whose body stores \<open>h r c\<close> into slot \<open>(r, c)\<close> for every visited position
  leaves the other slots alone.
\<close>

lemma fold_mat_set:
  assumes "mat_ok m" "\<forall>j\<in>set js. pr j < nrows m \<and> pc j < ncols m"
  shows "mat_ok (fold (\<lambda>j r. mat_set r (pr j) (pc j) (h (pr j) (pc j))) js m)
       \<and> nrows (fold (\<lambda>j r. mat_set r (pr j) (pc j) (h (pr j) (pc j))) js m) = nrows m
       \<and> ncols (fold (\<lambda>j r. mat_set r (pr j) (pc j) (h (pr j) (pc j))) js m) = ncols m
       \<and> (\<forall>r<nrows m. \<forall>c<ncols m.
            mat_at (fold (\<lambda>j r. mat_set r (pr j) (pc j) (h (pr j) (pc j))) js m) r c =
              (if \<exists>j\<in>set js. pr j = r \<and> pc j = c then h r c else mat_at m r c))"
  using assms
proof (induction js arbitrary: m)
  case Nil
  then show ?case by simp
next
  case (Cons j js)
  let ?m1 = "mat_set m (pr j) (pc j) (h (pr j) (pc j))"
  have ok1: "mat_ok ?m1" using Cons.prems by simp
  have rng1: "\<forall>j\<in>set js. pr j < nrows ?m1 \<and> pc j < ncols ?m1" using Cons.prems by simp
  note IH = Cons.IH [OF ok1 rng1]
  have j: "pr j < nrows m" "pc j < ncols m" using Cons.prems by simp_all
  show ?case
  proof (intro conjI allI impI)
    fix r c assume rc: "r < nrows m" "c < ncols m"
    have "mat_at ?m1 r c = (if r = pr j \<and> c = pc j then h (pr j) (pc j) else mat_at m r c)"
      using mat_at_set [OF Cons.prems(1) j rc] .
    with IH rc show "mat_at (fold (\<lambda>j r. mat_set r (pr j) (pc j) (h (pr j) (pc j))) (j # js) m) r c =
              (if \<exists>j\<in>set (j # js). pr j = r \<and> pc j = c then h r c else mat_at m r c)"
      by auto
  qed (use IH in simp_all)
qed

lemma Mat_fill_props:
  "mat_ok (Mat_fill N M s)" "nrows (Mat_fill N M s) = N" "ncols (Mat_fill N M s) = M"
  "i < N \<Longrightarrow> j < M \<Longrightarrow> mat_at (Mat_fill N M s) i j = (if i = j then s else 0)"
proof -
  let ?h = "\<lambda>r c. if r = c then s else 0"
  have eq: "Mat_fill N M s =
      fold (\<lambda>p r. mat_set r (fst p) (snd p) (?h (fst p) (snd p)))
        (List.product [0..<N] [0..<M]) (Mat_default N M)"
    unfolding Mat_fill_def fold_nested by (rule arg_cong [where f = "\<lambda>f. fold f _ _"]) (simp add: fun_eq_iff)
  have *: "mat_ok (Mat_default N M :: 'a Mat)"
     "\<forall>j\<in>set (List.product [0..<N] [0..<M]). fst j < nrows (Mat_default N M :: 'a Mat)
          \<and> snd j < ncols (Mat_default N M :: 'a Mat)"
    by auto
  note F = fold_mat_set [OF *, where h = ?h, folded eq]
  show "mat_ok (Mat_fill N M s)" "nrows (Mat_fill N M s) = N" "ncols (Mat_fill N M s) = M"
    using F by simp_all
  show "mat_at (Mat_fill N M s) i j = (if i = j then s else 0)" if "i < N" "j < M"
    using F that by force
qed

lemma identity_eq_fill: "identity N M = Mat_fill N M 1"
  by (simp add: identity_def Mat_fill_def)

lemma identity_props:
  "mat_ok (identity N M)" "nrows (identity N M) = N" "ncols (identity N M) = M"
  "i < N \<Longrightarrow> j < M \<Longrightarrow> mat_at (identity N M) i j = (if i = j then 1 else 0)"
  by (simp_all add: identity_eq_fill Mat_fill_props)

lemma transpose_Mat_props:
  assumes "mat_ok m"
  shows "mat_ok (transpose_Mat m)" "nrows (transpose_Mat m) = ncols m"
    "ncols (transpose_Mat m) = nrows m"
    "j < ncols m \<Longrightarrow> i < nrows m \<Longrightarrow> mat_at (transpose_Mat m) j i = mat_at m i j"
proof -
  let ?h = "\<lambda>r c. mat_at m c r"
  let ?D = "Mat_default (ncols m) (nrows m) :: 'a Mat"
  have eq: "transpose_Mat m =
      fold (\<lambda>p r. mat_set r (snd p) (fst p) (?h (snd p) (fst p)))
        (List.product [0..<nrows m] [0..<ncols m]) ?D"
    unfolding transpose_Mat_def fold_nested by simp
  have *: "mat_ok ?D"
     "\<forall>j\<in>set (List.product [0..<nrows m] [0..<ncols m]). snd j < nrows ?D \<and> fst j < ncols ?D"
    by auto
  note F = fold_mat_set [OF *, where h = ?h, folded eq]
  show "mat_ok (transpose_Mat m)" "nrows (transpose_Mat m) = ncols m"
    "ncols (transpose_Mat m) = nrows m"
    using F by simp_all
  show "mat_at (transpose_Mat m) j i = mat_at m i j" if "j < ncols m" "i < nrows m"
    using F that by force
qed

section \<open>Construction and transposition\<close>

text \<open>
  Claim C7.  For every shape \<open>N\<close> by \<open>M\<close> and every scalar \<open>s\<close>, the fill constructor
  \<open>Mat(s)\<close> stores \<open>s\<close> at the diagonal positions (\<open>i = j\<close>) and zero everywhere else, and
  \<open>identity()\<close> stores 1 at the diagonal positions and zero everywhere else; both are
  matrices of shape \<open>N\<close> by \<open>M\<close> whether or not \<open>N = M\<close>.
\<close>

theorem fill_and_identity_entries:
  assumes "i < N" "j < M"
  shows "mat_at (Mat_fill N M s) i j = (if i = j then s else (0::'a::{zero,one}))
       \<and> mat_at (identity N M :: 'a Mat) i j = (if i = j then 1 else 0)
       \<and> nrows (Mat_fill N M s) = N \<and> ncols (Mat_fill N M s) = M \<and> mat_ok (Mat_fill N M s)
       \<and> nrows (identity N M :: 'a Mat) = N \<and> ncols (identity N M :: 'a Mat) = M
       \<and> mat_ok (identity N M :: 'a Mat)"
  using assms by (simp add: Mat_fill_props identity_props)

theorem fill_and_identity_entries_witness:
  "(1::nat) < 2 \<and> (2::nat) < 3
   \<and> mat_at (Mat_fill 2 3 (7::int)) 1 2 = 0 \<and> mat_at (identity 2 3 :: int Mat) 1 2 = 0
   \<and> mat_at (Mat_fill 2 3 (7::int)) 1 1 = 7 \<and> mat_at (identity 2 3 :: int Mat) 1 1 = 1"
  using fill_and_identity_entries [where i = 1 and N = 2 and j = 2 and M = 3 and s = "7::int"]
    fill_and_identity_entries [where i = 1 and N = 2 and j = 1 and M = 3 and s = "7::int"]
  by simp

text \<open>
  Claim C8.  For every \<open>N\<close> by \<open>M\<close> matrix \<open>A\<close> (a buffer of \<open>N * M\<close> coefficients),
  \<open>transpose(transpose(A))\<close> is \<open>A\<close> itself, coefficient for coefficient: transposition
  only moves coefficients and computes nothing.
\<close>

theorem transpose_involution:
  assumes "mat_ok A"
  shows "transpose_Mat (transpose_Mat A) = A"
proof (rule mat_eqI)
  note T = transpose_Mat_props [OF assms]
  note TT = transpose_Mat_props [OF T(1)]
  show "mat_ok (transpose_Mat (transpose_Mat A))" by (rule TT(1))
  show "mat_ok A" by (rule assms)
  show "nrows (transpose_Mat (transpose_Mat A)) = nrows A" using TT(2) T(3) by simp
  show "ncols (transpose_Mat (transpose_Mat A)) = ncols A" using TT(3) T(2) by simp
  fix r c
  assume "r < nrows (transpose_Mat (transpose_Mat A))" "c < ncols (transpose_Mat (transpose_Mat A))"
  then have rc: "r < nrows A" "c < ncols A" using TT(2,3) T(2,3) by simp_all
  have "mat_at (transpose_Mat (transpose_Mat A)) r c = mat_at (transpose_Mat A) c r"
    using TT(4) [of r c] rc T(2,3) by simp
  also have "\<dots> = mat_at A r c" using T(4) [of c r] rc by simp
  finally show "mat_at (transpose_Mat (transpose_Mat A)) r c = mat_at A r c" .
qed

theorem transpose_involution_witness:
  "mat_ok \<lparr>nrows = 2, ncols = 3, m_buf = [1, 2, 3, 4, 5, 6::int]\<rparr>
   \<and> transpose_Mat (transpose_Mat \<lparr>nrows = 2, ncols = 3, m_buf = [1, 2, 3, 4, 5, 6::int]\<rparr>)
       = \<lparr>nrows = 2, ncols = 3, m_buf = [1, 2, 3, 4, 5, 6]\<rparr>"
  using transpose_involution [of "\<lparr>nrows = 2, ncols = 3, m_buf = [1, 2, 3, 4, 5, 6::int]\<rparr>"]
  by (simp add: mat_ok_def)

section \<open>Homogeneous matrix-vector product\<close>

lemma upt_0_4: "[0..<4] = [0,1,2,3]" by (simp add: upt_rec)
lemma replicate_4: "replicate 4 x = [x,x,x,x]" by (simp add: eval_nat_numeral)

lemma Mat4_mul_Vec4_eval:
  "Mat4_mul_Vec4 lhs rhs =
     map (\<lambda>i. 0 + mat_at lhs i 0 * rhs ! 0 + mat_at lhs i 1 * rhs ! 1
                 + mat_at lhs i 2 * rhs ! 2 + mat_at lhs i 3 * rhs ! 3) [0, 1, 2, 3]"
  by (simp add: Mat4_mul_Vec4_def upt_0_4 replicate_4)

lemma length_3_obtain: "length v = 3 \<Longrightarrow> \<exists>x y z. v = [x, y, z]"
  by (auto simp: length_Suc_conv eval_nat_numeral)

text \<open>In \<open>flt\<close>, a division by zero is an infinity or not-a-number.\<close>

lemma flt_div_zero: "flt_eq z 0 \<Longrightarrow> non_finite (x / z)"
  by (cases x) (simp_all add: flt_eq_def zero_flt_def)

text \<open>
  Claim C10.  The product of a 4 by 4 matrix with a 3-component vector treats the vector
  as a homogeneous point: the vector is extended by a fourth component 1 and multiplied
  by the matrix, which gives the four components \<open>h\<close> (each one accumulated from 0 in
  the order of the code), and the first three components of \<open>h\<close>, each divided by the
  computed fourth component \<open>h ! 3\<close>, are returned.  There is no test on \<open>h ! 3\<close>.
  This holds for every scalar type and every meaning of its operations, rounding
  included: no law of arithmetic is used.  Consequently, for every notion of zero and of
  non-finite scalar such that a division by a zero is non-finite (in IEEE 754 arithmetic:
  the two zeros; the infinities and not-a-number), each returned component is
  non-finite whenever the computed \<open>h ! 3\<close> is zero.
\<close>

theorem Mat4_mul_Vec3_homogeneous:
  fixes lhs :: "'a::{zero,one,plus,times,inverse} Mat" and rhs :: "'a Vec"
    and is_zero non_fin :: "'a \<Rightarrow> bool"
  assumes "length rhs = 3"
    and "\<And>x z. is_zero z \<Longrightarrow> non_fin (x / z)"
  shows "let h = Mat4_mul_Vec4 lhs (Vec_append rhs 1);
             result = Mat4_mul_Vec3 lhs rhs
         in h = map (\<lambda>i. 0 + mat_at lhs i 0 * rhs ! 0 + mat_at lhs i 1 * rhs ! 1
                           + mat_at lhs i 2 * rhs ! 2 + mat_at lhs i 3 * 1) [0, 1, 2, 3]
          \<and> result = [h ! 0 / h ! 3, h ! 1 / h ! 3, h ! 2 / h ! 3]
          \<and> (is_zero (h ! 3) \<longrightarrow> (\<forall>x\<in>set result. non_fin x))"
proof -
  obtain x y z where v: "rhs = [x, y, z]" using length_3_obtain [OF assms(1)] by blast
  show ?thesis
    using assms(2)
    by (simp add: Let_def Mat4_mul_Vec3_def Mat4_mul_Vec4_eval Vec_append_def Vec_div_assign_def
        Vec3_of_array_def v numeral_2_eq_2 numeral_3_eq_3)
qed

lemma Mat4_mul_Vec4_flt_1:
  "Mat4_mul_Vec4 \<lparr>nrows = 4, ncols = 4, m_buf = map Fin [1, 0, 0, 0, 0, 1, 0, 0, 0, 0, 1, 0, 2, 3, 4, 0]\<rparr>
      (Vec_append [Fin 1, Fin 1, Fin 1] 1) = [Fin 3, Fin 4, Fin 5, Fin 0]"
  by (simp add: Mat4_mul_Vec4_eval Vec_append_def mat_at_def zero_flt_def one_flt_def)

lemma Mat4_mul_Vec4_flt_2:
  "Mat4_mul_Vec4 \<lparr>nrows = 4, ncols = 4, m_buf = map Fin [1, 0, 0, 0, 0, 1, 0, 0, 0, 0, 1, 0, 2, 3, 4, 2]\<rparr>
      (Vec_append [Fin 1, Fin 1, Fin 1] 1) = [Fin 3, Fin 4, Fin 5, Fin 2]"
  by (simp add: Mat4_mul_Vec4_eval Vec_append_def mat_at_def zero_flt_def one_flt_def)

theorem Mat4_mul_Vec3_homogeneous_witness:
  "length [Fin 1, Fin 1, Fin 1] = 3
   \<and> Mat4_mul_Vec4 \<lparr>nrows = 4, ncols = 4, m_buf = map Fin [1, 0, 0, 0, 0, 1, 0, 0, 0, 0, 1, 0, 2, 3, 4, 2]\<rparr>
        (Vec_append [Fin 1, Fin 1, Fin 1] 1) = [Fin 3, Fin 4, Fin 5, Fin 2]
   \<and> Mat4_mul_Vec3 \<lparr>nrows = 4, ncols = 4, m_buf = map Fin [1, 0, 0, 0, 0, 1, 0, 0, 0, 0, 1, 0, 2, 3, 4, 2]\<rparr>
        [Fin 1, Fin 1, Fin 1] = [Fin (3 / 2), Fin 2, Fin (5 / 2)]
   \<and> Mat4_mul_Vec4 \<lparr>nrows = 4, ncols = 4, m_buf = map Fin [1, 0, 0, 0, 0, 1, 0, 0, 0, 0, 1, 0, 2, 3, 4, 0]\<rparr>
        (Vec_append [Fin 1, Fin 1, Fin 1] 1) = [Fin 3, Fin 4, Fin 5, Fin 0]
   \<and> flt_eq (Mat4_mul_Vec4 \<lparr>nrows = 4, ncols = 4, m_buf = map Fin [1, 0, 0, 0, 0, 1, 0, 0, 0, 0, 1, 0, 2, 3, 4, 0]\<rparr>
        (Vec_append [Fin 1, Fin 1, Fin 1] 1) ! 3) 0
   \<and> Mat4_mul_Vec3 \<lparr>nrows = 4, ncols = 4, m_buf = map Fin [1, 0, 0, 0, 0, 1, 0, 0, 0, 0, 1, 0, 2, 3, 4, 0]\<rparr>
        [Fin 1, Fin 1, Fin 1] = [PInf, PInf, PInf]
   \<and> non_finite (Mat4_mul_Vec3 \<lparr>nrows = 4, ncols = 4, m_buf = map Fin [1, 0, 0, 0, 0, 1, 0, 0, 0, 0, 1, 0, 2, 3, 4, 0]\<rparr>
        [Fin 1, Fin 1, Fin 1] ! 0)
   \<and> non_finite (Mat4_mul_Vec3 \<lparr>nrows = 4, ncols = 4, m_buf = map Fin [1, 0, 0, 0, 0, 1, 0, 0, 0, 0, 1, 0, 2, 3, 4, 0]\<rparr>
        [Fin 1, Fin 1, Fin 1] ! 1)
   \<and> non_finite (Mat4_mul_Vec3 \<lparr>nrows = 4, ncols = 4, m_buf = map Fin [1, 0, 0, 0, 0, 1, 0, 0, 0, 0, 1, 0, 2, 3, 4, 0]\<rparr>
        [Fin 1, Fin 1, Fin 1] ! 2)"
proof -
  let ?M = "\<lparr>nrows = 4, ncols = 4, m_buf = map Fin [1, 0, 0, 0, 0, 1, 0, 0, 0, 0, 1, 0, 2, 3, 4, 0]\<rparr>"
  let ?M2 = "\<lparr>nrows = 4, ncols = 4, m_buf = map Fin [1, 0, 0, 0, 0, 1, 0, 0, 0, 0, 1, 0, 2, 3, 4, 2]\<rparr>"
  let ?v = "[Fin 1, Fin 1, Fin 1]"
  have l: "length ?v = 3" by simp
  have z: "flt_eq (Mat4_mul_Vec4 ?M (Vec_append ?v 1) ! 3) 0"
    unfolding Mat4_mul_Vec4_flt_1 by (simp add: flt_eq_def zero_flt_def)
  note t1 = Mat4_mul_Vec3_homogeneous [of ?v "\<lambda>z. flt_eq z 0" non_finite ?M, OF l flt_div_zero,
      unfolded Let_def, THEN conjunct2]
  have r1: "Mat4_mul_Vec3 ?M ?v = [PInf, PInf, PInf]"
    using t1 [THEN conjunct1, unfolded Mat4_mul_Vec4_flt_1] by simp
  have "\<forall>x\<in>set (Mat4_mul_Vec3 ?M ?v). non_finite x"
    using t1 [THEN conjunct2] z by blast
  then have n: "non_finite (Mat4_mul_Vec3 ?M ?v ! 0)" "non_finite (Mat4_mul_Vec3 ?M ?v ! 1)"
    "non_finite (Mat4_mul_Vec3 ?M ?v ! 2)"
    using r1 by simp_all
  note t2 = Mat4_mul_Vec3_homogeneous [of ?v "\<lambda>z. flt_eq z 0" non_finite ?M2, OF l flt_div_zero,
      unfolded Let_def, THEN conjunct2, THEN conjunct1]
  have r2: "Mat4_mul_Vec3 ?M2 ?v = [Fin (3 / 2), Fin 2, Fin (5 / 2)]"
    using t2 [unfolded Mat4_mul_Vec4_flt_2] by simp
  from l Mat4_mul_Vec4_flt_2 r2 Mat4_mul_Vec4_flt_1 z r1 n show ?thesis by (intro conjI)
qed

section \<open>Rotation from Euler angles: the invalid order\<close>

lemma upt_0_3: "[0..<3] = [0, 1, 2]" by (simp add: upt_rec)

lemma Mat_default_3_3: "Mat_default 3 3 = \<lparr>nrows = 3, ncols = 3, m_buf = [undefined, undefined, undefined, undefined, undefined, undefined, undefined, undefined, undefined]\<rparr>"
  by (simp add: Mat_default_def eval_nat_numeral)

text \<open>Evaluation of element access on an explicit buffer.\<close>

lemma mat_set_code:
  "mat_set \<lparr>nrows = n, ncols = k, m_buf = xs\<rparr> r c v = \<lparr>nrows = n, ncols = k, m_buf = xs[c * n + r := v]\<rparr>"
  by (simp add: mat_set_def)

lemma mat_at_code: "mat_at \<lparr>nrows = n, ncols = k, m_buf = xs\<rparr> r c = xs ! (c * n + r)"
  by (simp add: mat_at_def)

lemma Mat3_mul_code:
  "Mat3_mul \<lparr>nrows = 3, ncols = 3, m_buf = [a0, a1, a2, a3, a4, a5, a6, a7, a8]\<rparr>
            \<lparr>nrows = 3, ncols = 3, m_buf = [b0, b1, b2, b3, b4, b5, b6, b7, b8]\<rparr> =
   \<lparr>nrows = 3, ncols = 3, m_buf =
      [0 + a0 * b0 + a3 * b1 + a6 * b2, 0 + a1 * b0 + a4 * b1 + a7 * b2, 0 + a2 * b0 + a5 * b1 + a8 * b2,
       0 + a0 * b3 + a3 * b4 + a6 * b5, 0 + a1 * b3 + a4 * b4 + a7 * b5, 0 + a2 * b3 + a5 * b4 + a8 * b5,
       0 + a0 * b6 + a3 * b7 + a6 * b8, 0 + a1 * b6 + a4 * b7 + a7 * b8, 0 + a2 * b6 + a5 * b7 + a8 * b8]\<rparr>"
  by (simp add: Mat3_mul_def upt_0_3 Mat_default_3_3 mat_set_code mat_at_code)

text \<open>
  Claim C6, as stated, fails: for an order outside the six valid ones the constructor does
  not return the composition \<open>ry * rx * rz\<close> of the default argument 312.  At the angles
  \<open>x = y = pi / 2\<close>, \<open>z = 0\<close> and the order 0 the two matrices differ.
\<close>

theorem rotation_invalid_order_counterexample:
  "rotation_Mat3 (pi / 2) (pi / 2) 0 0 =
     (True, \<lparr>nrows = 3, ncols = 3, m_buf = [0, 1, 0, 0, 0, 1, 1, 0, 0]\<rparr>)
   \<and> rotation_Mat3 (pi / 2) (pi / 2) 0 312 =
     (False, \<lparr>nrows = 3, ncols = 3, m_buf = [0, 0, -1, 1, 0, 0, 0, -1, 0]\<rparr>)
   \<and> snd (rotation_Mat3 (pi / 2) (pi / 2) 0 0) \<noteq> snd (rotation_Mat3 (pi / 2) (pi / 2) 0 312)"
  by (simp add: rotation_Mat3_def Mat_default_3_3 mat_set_code Mat3_mul_code)

text \<open>
  Claim C6, amended.  For every order other than 123, 132, 213, 231, 312 and 321 the
  constructor logs an error and returns \<open>rx * rz * ry\<close>, which is the matrix it returns for
  the order 231 (first Y, then Z, then X); it is a total function, so nothing is thrown.
\<close>

theorem rotation_invalid_order:
  "order \<notin> {123, 132, 213, 231, 312, 321} \<Longrightarrow>
     rotation_Mat3 x y z order = (True, snd (rotation_Mat3 x y z 231))"
  by (simp add: rotation_Mat3_def Let_def)

theorem rotation_invalid_order_witness:
  "(0::int) \<notin> {123, 132, 213, 231, 312, 321}
   \<and> rotation_Mat3 (pi / 2) (pi / 2) 0 0 = (True, snd (rotation_Mat3 (pi / 2) (pi / 2) 0 231))"
  using rotation_invalid_order [of 0 "pi / 2" "pi / 2" 0] by simp

section \<open>Evaluation on explicit buffers\<close>

lemma swap_rows_code:
  "swap_rows \<lparr>nrows = n, ncols = k, m_buf = xs\<rparr> a b =
     fold (\<lambda>i this. let tmp = mat_at this a i
                     in mat_set (mat_set this a i (mat_at this b i)) b i tmp)
       [0..<k] \<lparr>nrows = n, ncols = k, m_buf = xs\<rparr>"
  by (simp add: swap_rows_def)

lemma swap_cols_code:
  "swap_cols \<lparr>nrows = n, ncols = k, m_buf = xs\<rparr> a b =
     fold (\<lambda>i this. let tmp = mat_at this i a
                     in mat_set (mat_set this i a (mat_at this i b)) i b tmp)
       [0..<n] \<lparr>nrows = n, ncols = k, m_buf = xs\<rparr>"
  by (simp add: swap_cols_def)

lemma row_code:
  "row \<lparr>nrows = n, ncols = k, m_buf = xs\<rparr> r =
     fold (\<lambda>i result. result[i := mat_at \<lparr>nrows = n, ncols = k, m_buf = xs\<rparr> r i]) [0..<k]
       (replicate k undefined)"
  by (simp add: row_def)

lemma set_row_code:
  "set_row \<lparr>nrows = n, ncols = k, m_buf = xs\<rparr> r v =
     fold (\<lambda>i this. mat_set this r i (v ! i)) [0..<k] \<lparr>nrows = n, ncols = k, m_buf = xs\<rparr>"
  by (simp add: set_row_def)

lemma upt_small:
  "[0..<1] = [0]" "[0..<2] = [0, 1]" "[1..<2] = [1]" "[Suc 0..<2] = [1]" "[2..<2] = []"
  "[1..<1] = []" "[Suc 0..<1] = []" "[0..<Suc 0] = [0]"
  by (simp_all add: upt_rec)

lemma replicate_2: "replicate 2 x = [x, x]"
  by (simp add: eval_nat_numeral)

lemmas eval_simps = Let_def upt_small replicate_2 mat_at_code mat_set_code swap_rows_code
  swap_cols_code row_code set_row_code Vec_scale_def

section \<open>The singular 2 by 2 scenario\<close>

text \<open>
  Claim C5, amended.  For the rank-1 matrix \<open>A = [[1, 2], [2, 4]]\<close> (buffer
  \<open>[1, 2, 2, 4]\<close>), \<open>lu_decomposition\<close> returns false, the closed-form determinant is
  exactly zero, and the closed-form \<open>inverse(Mat2)\<close> reports nothing: it divides by the
  zero determinant and returns a matrix whose four coefficients are infinities.
\<close>

theorem singular_2x2_scenario:
  fixes eps tiny :: "'a::linordered_field"
  assumes "0 < eps" "eps \<le> 2" "tiny \<le> 2" "length rowp0 = 2"
  shows "lu_decomposition eps tiny \<lparr>nrows = 2, ncols = 2, m_buf = [1, 2, 2, 4]\<rparr> rowp0 =
           Inr (False, \<lparr>nrows = 2, ncols = 2, m_buf = [2, 1 / 2, 4, 0]\<rparr>, [1, 1], - 1)
       \<and> determinant_Mat2 \<lparr>nrows = 2, ncols = 2, m_buf = [1, 2, 2, 4::'a]\<rparr> = 0
       \<and> inverse_Mat2 \<lparr>nrows = 2, ncols = 2, m_buf = [Fin 1, Fin 2, Fin 2, Fin 4]\<rparr> =
           \<lparr>nrows = 2, ncols = 2, m_buf = [PInf, NInf, NInf, PInf]\<rparr>"
proof (intro conjI)
  obtain p q where r: "rowp0 = [p, q]"
    using assms(4) by (auto simp: length_Suc_conv eval_nat_numeral)
  have a: "\<not> 4 < tiny" "\<not> 2 < tiny" "\<not> 2 < eps" using assms by auto
  show "lu_decomposition eps tiny \<lparr>nrows = 2, ncols = 2, m_buf = [1, 2, 2, 4]\<rparr> rowp0 =
           Inr (False, \<lparr>nrows = 2, ncols = 2, m_buf = [2, 1 / 2, 4, 0]\<rparr>, [1, 1], - 1)"
    using assms(1) a
    apply (simp add: lu_decomposition_def r eval_simps)
    apply (simp add: lu_column_def eval_simps)
    done
  show "determinant_Mat2 \<lparr>nrows = 2, ncols = 2, m_buf = [1, 2, 2, 4::'a]\<rparr> = 0"
    by (simp add: determinant_Mat2_def mat_at_code)
  show "inverse_Mat2 \<lparr>nrows = 2, ncols = 2, m_buf = [Fin 1, Fin 2, Fin 2, Fin 4]\<rparr> =
           \<lparr>nrows = 2, ncols = 2, m_buf = [PInf, NInf, NInf, PInf]\<rparr>"
    by (simp add: inverse_Mat2_def determinant_Mat2_def mat_scale_assign_def Mat_default_def
        eval_simps upt_0_4 replicate_4 minus_flt_def one_flt_def)
qed

theorem singular_2x2_scenario_witness:
  "(0::real) < 1 / 10 ^ 6 \<and> (1::real) / 10 ^ 6 \<le> 2 \<and> (1::real) / 10 ^ 38 \<le> 2 \<and> length [0, 0::real] = 2
   \<and> lu_decomposition (1 / 10 ^ 6) (1 / 10 ^ 38) \<lparr>nrows = 2, ncols = 2, m_buf = [1, 2, 2, 4::real]\<rparr> [0, 0] =
           Inr (False, \<lparr>nrows = 2, ncols = 2, m_buf = [2, 1 / 2, 4, 0]\<rparr>, [1, 1], - 1)"
  using singular_2x2_scenario [of "1 / 10 ^ 6 :: real" "1 / 10 ^ 38" "[0, 0]"] by simp

text \<open>
  Claim C5, as stated, fails on the part about \<open>inverse\<close>: no inverse reports the
  singularity of \<open>A\<close>.  After the first round the generic \<open>inverse\<close> finds no
  non-zero candidate and reads the unassigned pivot indices instead of logging an error;
  the closed-form \<open>inverse(Mat2)\<close> returns infinities without any report.
\<close>

theorem singular_2x2_inverse_counterexample:
  "inverse_Mat (1 / 10 ^ 6) \<lparr>nrows = 2, ncols = 2, m_buf = [1, 2, 2, 4::real]\<rparr> = Inl Uninitialized_index
   \<and> inverse_Mat2 \<lparr>nrows = 2, ncols = 2, m_buf = [Fin 1, Fin 2, Fin 2, Fin 4]\<rparr> =
           \<lparr>nrows = 2, ncols = 2, m_buf = [PInf, NInf, NInf, PInf]\<rparr>"
proof
  show "inverse_Mat (1 / 10 ^ 6) \<lparr>nrows = 2, ncols = 2, m_buf = [1, 2, 2, 4::real]\<rparr> = Inl Uninitialized_index"
    apply (simp add: inverse_Mat_def eval_simps)
    apply (simp add: inverse_iter_def pivot_search_def eval_simps)
    done
  show "inverse_Mat2 \<lparr>nrows = 2, ncols = 2, m_buf = [Fin 1, Fin 2, Fin 2, Fin 4]\<rparr> =
           \<lparr>nrows = 2, ncols = 2, m_buf = [PInf, NInf, NInf, PInf]\<rparr>"
    by (simp add: inverse_Mat2_def determinant_Mat2_def mat_scale_assign_def Mat_default_def
        eval_simps upt_0_4 replicate_4 minus_flt_def one_flt_def)
qed



section \<open>Gauss-Jordan elimination: the returned flag and the buffers on failure\<close>

lemma gj_iter_flag:
  assumes "gj_iter eps N M i st = Inr (flag, st')"
  shows "\<exists>maxr maxc. snd (pivot_search (gj_amat st) (gj_ipiv st) N) = Some (maxr, maxc)
           \<and> flag = (\<not> \<bar>gj_pivot (gj_amat st) maxr maxc\<bar> < eps)"
  using assms
  by (auto simp: gj_iter_def gj_pivot_def Let_def split: option.splits prod.splits if_splits)

lemma gj_loop_flag:
  assumes "gj_loop eps N M is st = Inr (flag, st')"
  shows "flag = (\<forall>p\<in>set (gj_pivots eps N M is st). \<not> \<bar>p\<bar> < eps)"
  using assms
proof (induction "is" arbitrary: st)
  case Nil
  then show ?case by simp
next
  case (Cons i "is")
  show ?case
  proof (cases "gj_iter eps N M i st")
    case (Inl e)
    with Cons.prems show ?thesis by simp
  next
    case (Inr r)
    obtain f st1 where r: "r = (f, st1)" by (cases r)
    from gj_iter_flag [OF Inr [unfolded r]] obtain maxr maxc where
      s: "snd (pivot_search (gj_amat st) (gj_ipiv st) N) = Some (maxr, maxc)"
      and f: "f = (\<not> \<bar>gj_pivot (gj_amat st) maxr maxc\<bar> < eps)" by blast
    show ?thesis
    proof (cases f)
      case True
      with Cons.prems Inr r have "gj_loop eps N M is st1 = Inr (flag, st')" by simp
      from Cons.IH [OF this] show ?thesis using Inr r True s f by simp
    next
      case False
      with Cons.prems Inr r have "flag = False" by simp
      then show ?thesis using Inr r False s f by simp
    qed
  qed
qed

text \<open>
  Claim C3, amended.  Whenever \<open>gauss_jordan_elimination\<close> returns a flag (every pivot
  search of the run found a non-zero candidate), the flag is false exactly when the
  magnitude of one of the chosen pivots is strictly below \<open>epsilon\<close>; a pivot whose
  magnitude equals \<open>epsilon\<close> is accepted.  The determinant of \<open>A\<close> is not
  looked at.
\<close>

theorem gj_flag_iff_pivots:
  assumes "gauss_jordan_elimination eps a b ainv0 x0 = Inr (flag, ainv, x)"
  shows "flag = (\<forall>p\<in>set (gj_pivots eps (nrows a) (ncols b) [0..<nrows a] (gj_init a b ainv0 x0)).
                   \<not> \<bar>p\<bar> < eps)"
proof -
  obtain f st where l: "gj_loop eps (nrows a) (ncols b) [0..<nrows a] (gj_init a b ainv0 x0) = Inr (f, st)"
    using assms by (auto simp: gauss_jordan_elimination_def Let_def split: sum.splits)
  then have "flag = f"
    using assms by (auto simp: gauss_jordan_elimination_def Let_def split: sum.splits bool.splits if_splits)
  with gj_loop_flag [OF l] show ?thesis by simp
qed


lemma gj_eval_1:
  "gauss_jordan_elimination (1 / 10 ^ 6)
      \<lparr>nrows = 2, ncols = 2, m_buf = [1, 0, 0, 1 / 10 ^ 6 :: real]\<rparr>
      \<lparr>nrows = 2, ncols = 1, m_buf = [1, 1]\<rparr> ainv0 x0 =
    Inr (True, \<lparr>nrows = 2, ncols = 2, m_buf = [1, 0, 0, 10 ^ 6]\<rparr>,
               \<lparr>nrows = 2, ncols = 1, m_buf = [1, 10 ^ 6]\<rparr>)"
  apply (simp add: gauss_jordan_elimination_def gj_init_def eval_simps)
  apply (simp add: gj_iter_def pivot_search_def eval_simps)
  done

lemma gj_pivots_1:
  "gj_pivots (1 / 10 ^ 6) 2 1 [0..<2]
      (gj_init \<lparr>nrows = 2, ncols = 2, m_buf = [1, 0, 0, 1 / 10 ^ 6 :: real]\<rparr>
      \<lparr>nrows = 2, ncols = 1, m_buf = [1, 1]\<rparr> ainv0 x0) = [1, 1 / 10 ^ 6]"
  apply (simp add: gj_init_def eval_simps)
  apply (simp add: gj_iter_def gj_pivot_def pivot_search_def eval_simps)
  done

lemma gj_eval_2:
  "gauss_jordan_elimination (1 / 10 ^ 6)
      \<lparr>nrows = 2, ncols = 2, m_buf = [1 / 10 ^ 7, 0, 0, 10 ^ 7 :: real]\<rparr>
      \<lparr>nrows = 2, ncols = 1, m_buf = [1, 1]\<rparr> ainv0 x0 =
    Inr (False, \<lparr>nrows = 2, ncols = 2, m_buf = [1 / 10 ^ 7, 0, 0, 1 / 10 ^ 7]\<rparr>,
               \<lparr>nrows = 2, ncols = 1, m_buf = [1, 1 / 10 ^ 7]\<rparr>)"
  apply (simp add: gauss_jordan_elimination_def gj_init_def eval_simps)
  apply (simp add: gj_iter_def pivot_search_def eval_simps)
  done


theorem gj_flag_iff_pivots_witness:
  "gauss_jordan_elimination (1 / 10 ^ 6)
      \<lparr>nrows = 2, ncols = 2, m_buf = [1, 0, 0, 1 / 10 ^ 6 :: real]\<rparr>
      \<lparr>nrows = 2, ncols = 1, m_buf = [1, 1]\<rparr>
      \<lparr>nrows = 2, ncols = 2, m_buf = [0, 0, 0, 0]\<rparr> \<lparr>nrows = 2, ncols = 1, m_buf = [0, 0]\<rparr> =
    Inr (True, \<lparr>nrows = 2, ncols = 2, m_buf = [1, 0, 0, 10 ^ 6]\<rparr>,
               \<lparr>nrows = 2, ncols = 1, m_buf = [1, 10 ^ 6]\<rparr>)
   \<and> (True = (\<forall>p\<in>set (gj_pivots (1 / 10 ^ 6) 2 1 [0..<2]
      (gj_init \<lparr>nrows = 2, ncols = 2, m_buf = [1, 0, 0, 1 / 10 ^ 6 :: real]\<rparr>
      \<lparr>nrows = 2, ncols = 1, m_buf = [1, 1]\<rparr>
      \<lparr>nrows = 2, ncols = 2, m_buf = [0, 0, 0, 0]\<rparr> \<lparr>nrows = 2, ncols = 1, m_buf = [0, 0]\<rparr>)).
        \<not> \<bar>p\<bar> < 1 / 10 ^ 6))"
proof -
  note e = gj_eval_1 [of "\<lparr>nrows = 2, ncols = 2, m_buf = [0, 0, 0, 0]\<rparr>"
        "\<lparr>nrows = 2, ncols = 1, m_buf = [0, 0]\<rparr>"]
  from e gj_flag_iff_pivots [OF e, unfolded Mat.simps] show ?thesis by (rule conjI)
qed

text \<open>
  Claim C3, as stated, fails.  With \<open>epsilon = 1 / 10^6\<close>: for \<open>A = diag(1, epsilon)\<close> the
  second pivot has magnitude exactly \<open>epsilon\<close> and the function returns true; and for
  \<open>A = diag(1 / 10^7, 10^7)\<close>, whose determinant is 1, the function returns false.
\<close>

theorem gj_flag_counterexample:
  "gauss_jordan_elimination (1 / 10 ^ 6)
      \<lparr>nrows = 2, ncols = 2, m_buf = [1, 0, 0, 1 / 10 ^ 6 :: real]\<rparr>
      \<lparr>nrows = 2, ncols = 1, m_buf = [1, 1]\<rparr>
      \<lparr>nrows = 2, ncols = 2, m_buf = [0, 0, 0, 0]\<rparr> \<lparr>nrows = 2, ncols = 1, m_buf = [0, 0]\<rparr> =
    Inr (True, \<lparr>nrows = 2, ncols = 2, m_buf = [1, 0, 0, 10 ^ 6]\<rparr>,
               \<lparr>nrows = 2, ncols = 1, m_buf = [1, 10 ^ 6]\<rparr>)
   \<and> gj_pivots (1 / 10 ^ 6) 2 1 [0..<2]
      (gj_init \<lparr>nrows = 2, ncols = 2, m_buf = [1, 0, 0, 1 / 10 ^ 6 :: real]\<rparr>
      \<lparr>nrows = 2, ncols = 1, m_buf = [1, 1]\<rparr>
      \<lparr>nrows = 2, ncols = 2, m_buf = [0, 0, 0, 0]\<rparr> \<lparr>nrows = 2, ncols = 1, m_buf = [0, 0]\<rparr>)
     = [1, 1 / 10 ^ 6]
   \<and> determinant_Mat2 \<lparr>nrows = 2, ncols = 2, m_buf = [1 / 10 ^ 7, 0, 0, 10 ^ 7 :: real]\<rparr> = 1
   \<and> gauss_jordan_elimination (1 / 10 ^ 6)
      \<lparr>nrows = 2, ncols = 2, m_buf = [1 / 10 ^ 7, 0, 0, 10 ^ 7 :: real]\<rparr>
      \<lparr>nrows = 2, ncols = 1, m_buf = [1, 1]\<rparr>
      \<lparr>nrows = 2, ncols = 2, m_buf = [0, 0, 0, 0]\<rparr> \<lparr>nrows = 2, ncols = 1, m_buf = [0, 0]\<rparr> =
    Inr (False, \<lparr>nrows = 2, ncols = 2, m_buf = [1 / 10 ^ 7, 0, 0, 1 / 10 ^ 7]\<rparr>,
               \<lparr>nrows = 2, ncols = 1, m_buf = [1, 1 / 10 ^ 7]\<rparr>)"
  using gj_eval_1 [of "\<lparr>nrows = 2, ncols = 2, m_buf = [0, 0, 0, 0]\<rparr>"
        "\<lparr>nrows = 2, ncols = 1, m_buf = [0, 0]\<rparr>"]
    gj_eval_2 [of "\<lparr>nrows = 2, ncols = 2, m_buf = [0, 0, 0, 0]\<rparr>"
        "\<lparr>nrows = 2, ncols = 1, m_buf = [0, 0]\<rparr>"]
    gj_pivots_1 [of "\<lparr>nrows = 2, ncols = 2, m_buf = [0, 0, 0, 0]\<rparr>"
        "\<lparr>nrows = 2, ncols = 1, m_buf = [0, 0]\<rparr>"]
  by (simp add: determinant_Mat2_def mat_at_code)

lemma gj_iter_False:
  assumes "gj_iter eps N M i st = Inr (False, st')"
  shows "\<exists>maxr maxc. snd (pivot_search (gj_amat st) (gj_ipiv st) N) = Some (maxr, maxc)
     \<and> gj_amat st' = (if maxr \<noteq> maxc then swap_rows (gj_amat st) maxr maxc else gj_amat st)
     \<and> gj_bmat st' = (if maxr \<noteq> maxc then swap_rows (gj_bmat st) maxr maxc else gj_bmat st)
     \<and> \<bar>mat_at (gj_amat st') maxc maxc\<bar> < eps"
proof (cases "snd (pivot_search (gj_amat st) (gj_ipiv st) N)")
  case None
  with assms show ?thesis by (simp add: gj_iter_def)
next
  case (Some p)
  obtain maxr maxc where p: "p = (maxr, maxc)" by (cases p)
  have "gj_amat st' = (if maxr \<noteq> maxc then swap_rows (gj_amat st) maxr maxc else gj_amat st)
     \<and> gj_bmat st' = (if maxr \<noteq> maxc then swap_rows (gj_bmat st) maxr maxc else gj_bmat st)
     \<and> \<bar>mat_at (gj_amat st') maxc maxc\<bar> < eps"
    using assms Some p by (auto simp: gj_iter_def Let_def split: if_splits prod.splits)
  with Some p show ?thesis by blast
qed

lemma gj_loop_False:
  assumes "gj_loop eps N M is st0 = Inr (False, st')"
  shows "\<exists>pre i post st maxr maxc. is = pre @ i # post
     \<and> gj_loop eps N M pre st0 = Inr (True, st)
     \<and> snd (pivot_search (gj_amat st) (gj_ipiv st) N) = Some (maxr, maxc)
     \<and> gj_amat st' = (if maxr \<noteq> maxc then swap_rows (gj_amat st) maxr maxc else gj_amat st)
     \<and> gj_bmat st' = (if maxr \<noteq> maxc then swap_rows (gj_bmat st) maxr maxc else gj_bmat st)
     \<and> \<bar>mat_at (gj_amat st') maxc maxc\<bar> < eps"
  using assms
proof (induction "is" arbitrary: st0)
  case Nil
  then show ?case by simp
next
  case (Cons i "is")
  show ?case
  proof (cases "gj_iter eps N M i st0")
    case (Inl e)
    with Cons.prems show ?thesis by simp
  next
    case (Inr r)
    obtain f st1 where r: "r = (f, st1)" by (cases r)
    show ?thesis
    proof (cases f)
      case True
      with Cons.prems Inr r have "gj_loop eps N M is st1 = Inr (False, st')" by simp
      from Cons.IH [OF this] obtain pre j post st maxr maxc where
        *: "is = pre @ j # post" "gj_loop eps N M pre st1 = Inr (True, st)"
        "snd (pivot_search (gj_amat st) (gj_ipiv st) N) = Some (maxr, maxc)"
        "gj_amat st' = (if maxr \<noteq> maxc then swap_rows (gj_amat st) maxr maxc else gj_amat st)"
        "gj_bmat st' = (if maxr \<noteq> maxc then swap_rows (gj_bmat st) maxr maxc else gj_bmat st)"
        "\<bar>mat_at (gj_amat st') maxc maxc\<bar> < eps" by blast
      have "i # is = (i # pre) @ j # post" using *(1) by simp
      moreover have "gj_loop eps N M (i # pre) st0 = Inr (True, st)"
        using Inr r True *(2) by simp
      ultimately show ?thesis using *(3-6) by blast
    next
      case False
      with Cons.prems Inr r have st1: "st1 = st'" by simp
      have "gj_iter eps N M i st0 = Inr (False, st')" using Inr r st1 False by simp
      from gj_iter_False [OF this] obtain maxr maxc where
        *: "snd (pivot_search (gj_amat st0) (gj_ipiv st0) N) = Some (maxr, maxc)"
        "gj_amat st' = (if maxr \<noteq> maxc then swap_rows (gj_amat st0) maxr maxc else gj_amat st0)"
        "gj_bmat st' = (if maxr \<noteq> maxc then swap_rows (gj_bmat st0) maxr maxc else gj_bmat st0)"
        "\<bar>mat_at (gj_amat st') maxc maxc\<bar> < eps" by blast
      have "i # is = [] @ i # is" "gj_loop eps N M [] st0 = Inr (True, st0)" by simp_all
      with * show ?thesis by blast
    qed
  qed
qed


lemma upt_split:
  assumes "[0..<N] = pre @ i # post"
  shows "pre = [0..<length pre]" "length pre < N"
proof -
  have "length [0..<N] = length (pre @ i # post)" using assms by simp
  then show l: "length pre < N" by simp
  have "take (length pre) [0..<N] = pre" using assms by simp
  then show "pre = [0..<length pre]" using l by (simp add: take_upt)
qed

text \<open>
  Claim C9.  When \<open>gauss_jordan_elimination(a, b, ainv, x)\<close> returns false, the buffers
  \<open>*ainv\<close> and \<open>*x\<close> do not hold their previous contents: they hold what the run made
  of the copies of \<open>a\<close> and \<open>b\<close>, namely the state after some number \<open>k\<close> of complete
  rounds (each swapping, scaling and reducing rows) followed by the row swap of the round
  that found the small pivot; the result is the same whatever the buffers held before.
\<close>

theorem gj_failure_not_atomic:
  assumes "gauss_jordan_elimination eps a b ainv0 x0 = Inr (False, ainv, x)"
  shows "(\<exists>k st maxr maxc. k < nrows a
      \<and> gj_loop eps (nrows a) (ncols b) [0..<k]
            \<lparr>gj_amat = a, gj_bmat = b, gj_ipiv = replicate (nrows a) 0,
             gj_indxr = replicate (nrows a) undefined, gj_indxc = replicate (nrows a) undefined\<rparr>
          = Inr (True, st)
      \<and> snd (pivot_search (gj_amat st) (gj_ipiv st) (nrows a)) = Some (maxr, maxc)
      \<and> ainv = (if maxr \<noteq> maxc then swap_rows (gj_amat st) maxr maxc else gj_amat st)
      \<and> x = (if maxr \<noteq> maxc then swap_rows (gj_bmat st) maxr maxc else gj_bmat st)
      \<and> \<bar>mat_at ainv maxc maxc\<bar> < eps)
    \<and> (\<forall>ainv1 x1. gauss_jordan_elimination eps a b ainv1 x1 = Inr (False, ainv, x))"
proof
  let ?s0 = "\<lparr>gj_amat = a, gj_bmat = b, gj_ipiv = replicate (nrows a) 0,
             gj_indxr = replicate (nrows a) undefined, gj_indxc = replicate (nrows a) undefined\<rparr>"
  have init: "gj_init a b ainv0 x0 = ?s0" by (simp add: gj_init_def)
  obtain st' where l: "gj_loop eps (nrows a) (ncols b) [0..<nrows a] ?s0 = Inr (False, st')"
    and o: "ainv = gj_amat st'" "x = gj_bmat st'"
    using assms unfolding gauss_jordan_elimination_def Let_def init
    by (auto split: sum.splits bool.splits if_splits)
  from gj_loop_False [OF l] obtain pre i post st maxr maxc where
    *: "[0..<nrows a] = pre @ i # post"
    "gj_loop eps (nrows a) (ncols b) pre ?s0 = Inr (True, st)"
    "snd (pivot_search (gj_amat st) (gj_ipiv st) (nrows a)) = Some (maxr, maxc)"
    "gj_amat st' = (if maxr \<noteq> maxc then swap_rows (gj_amat st) maxr maxc else gj_amat st)"
    "gj_bmat st' = (if maxr \<noteq> maxc then swap_rows (gj_bmat st) maxr maxc else gj_bmat st)"
    "\<bar>mat_at (gj_amat st') maxc maxc\<bar> < eps" by blast
  note u = upt_split [OF *(1)]
  have "gj_loop eps (nrows a) (ncols b) [0..<length pre] ?s0 = Inr (True, st)"
    using *(2) u(1) by simp
  with u(2) *(3-6) o
  show "\<exists>k st maxr maxc. k < nrows a
      \<and> gj_loop eps (nrows a) (ncols b) [0..<k] ?s0 = Inr (True, st)
      \<and> snd (pivot_search (gj_amat st) (gj_ipiv st) (nrows a)) = Some (maxr, maxc)
      \<and> ainv = (if maxr \<noteq> maxc then swap_rows (gj_amat st) maxr maxc else gj_amat st)
      \<and> x = (if maxr \<noteq> maxc then swap_rows (gj_bmat st) maxr maxc else gj_bmat st)
      \<and> \<bar>mat_at ainv maxc maxc\<bar> < eps"
    by blast
  show "\<forall>ainv1 x1. gauss_jordan_elimination eps a b ainv1 x1 = Inr (False, ainv, x)"
    using assms by (simp add: gauss_jordan_elimination_def gj_init_def)
qed


lemma gj_eval_3:
  "gauss_jordan_elimination (1 / 10 ^ 6)
      \<lparr>nrows = 2, ncols = 2, m_buf = [0, 1 / 10 ^ 7, 2, 0 :: real]\<rparr>
      \<lparr>nrows = 2, ncols = 1, m_buf = [1, 2]\<rparr> ainv0 x0 =
    Inr (False, \<lparr>nrows = 2, ncols = 2, m_buf = [1 / 10 ^ 7, 0, 0, 1 / 2]\<rparr>,
               \<lparr>nrows = 2, ncols = 1, m_buf = [2, 1 / 2]\<rparr>)"
  apply (simp add: gauss_jordan_elimination_def gj_init_def eval_simps)
  apply (simp add: gj_iter_def pivot_search_def eval_simps)
  done

theorem gj_failure_not_atomic_witness:
  "gauss_jordan_elimination (1 / 10 ^ 6)
      \<lparr>nrows = 2, ncols = 2, m_buf = [0, 1 / 10 ^ 7, 2, 0 :: real]\<rparr>
      \<lparr>nrows = 2, ncols = 1, m_buf = [1, 2]\<rparr>
      \<lparr>nrows = 2, ncols = 2, m_buf = [7, 7, 7, 7]\<rparr> \<lparr>nrows = 2, ncols = 1, m_buf = [7, 7]\<rparr> =
    Inr (False, \<lparr>nrows = 2, ncols = 2, m_buf = [1 / 10 ^ 7, 0, 0, 1 / 2]\<rparr>,
               \<lparr>nrows = 2, ncols = 1, m_buf = [2, 1 / 2]\<rparr>)
   \<and> ((\<exists>k st maxr maxc. k < 2
      \<and> gj_loop (1 / 10 ^ 6) 2 1 [0..<k]
            \<lparr>gj_amat = \<lparr>nrows = 2, ncols = 2, m_buf = [0, 1 / 10 ^ 7, 2, 0 :: real]\<rparr>,
             gj_bmat = \<lparr>nrows = 2, ncols = 1, m_buf = [1, 2]\<rparr>, gj_ipiv = replicate 2 0,
             gj_indxr = replicate 2 undefined, gj_indxc = replicate 2 undefined\<rparr>
          = Inr (True, st)
      \<and> snd (pivot_search (gj_amat st) (gj_ipiv st) 2) = Some (maxr, maxc)
      \<and> \<lparr>nrows = 2, ncols = 2, m_buf = [1 / 10 ^ 7, 0, 0, 1 / 2]\<rparr>
           = (if maxr \<noteq> maxc then swap_rows (gj_amat st) maxr maxc else gj_amat st)
      \<and> \<lparr>nrows = 2, ncols = 1, m_buf = [2, 1 / 2]\<rparr>
           = (if maxr \<noteq> maxc then swap_rows (gj_bmat st) maxr maxc else gj_bmat st)
      \<and> \<bar>mat_at \<lparr>nrows = 2, ncols = 2, m_buf = [1 / 10 ^ 7, 0, 0, 1 / 2 :: real]\<rparr> maxc maxc\<bar>
            < 1 / 10 ^ 6)
   \<and> (\<forall>ainv1 x1. gauss_jordan_elimination (1 / 10 ^ 6)
      \<lparr>nrows = 2, ncols = 2, m_buf = [0, 1 / 10 ^ 7, 2, 0 :: real]\<rparr>
      \<lparr>nrows = 2, ncols = 1, m_buf = [1, 2]\<rparr> ainv1 x1 =
    Inr (False, \<lparr>nrows = 2, ncols = 2, m_buf = [1 / 10 ^ 7, 0, 0, 1 / 2]\<rparr>,
               \<lparr>nrows = 2, ncols = 1, m_buf = [2, 1 / 2]\<rparr>)))"
proof -
  note e = gj_eval_3 [of "\<lparr>nrows = 2, ncols = 2, m_buf = [7, 7, 7, 7]\<rparr>"
        "\<lparr>nrows = 2, ncols = 1, m_buf = [7, 7]\<rparr>"]
  from e gj_failure_not_atomic [OF e, unfolded Mat.simps] show ?thesis by (rule conjI)
qed


section \<open>Cholesky decomposition: the flag and the upper triangle\<close>

lemma cholesky_inner_props:
  assumes "cholesky_inner A j k (L, d, spd) = (L', d', spd')"
    and "mat_ok L" "j < nrows L" "k < ncols L"
  shows "mat_ok L'" "nrows L' = nrows L" "ncols L' = ncols L"
    "\<And>r c. r < nrows L \<Longrightarrow> c < ncols L \<Longrightarrow> (r, c) \<noteq> (j, k) \<Longrightarrow> mat_at L' r c = mat_at L r c"
    "d' = d + mat_at L' j k * mat_at L' j k"
    "spd' = (spd \<and> flt_eq (mat_at A k j) (mat_at A j k))"
  using assms by (auto simp: cholesky_inner_def Let_def mat_at_set)

lemma cholesky_inner_loop:
  assumes "mat_ok L" "j < nrows L" "K \<le> ncols L"
    and "fold (cholesky_inner A j) [0..<K] (L, 0, spd) = (L', d', spd')"
  shows "mat_ok L' \<and> nrows L' = nrows L \<and> ncols L' = ncols L
    \<and> (\<forall>r<nrows L. \<forall>c<ncols L. r \<noteq> j \<or> K \<le> c \<longrightarrow> mat_at L' r c = mat_at L r c)
    \<and> d' = fold (\<lambda>k d. d + mat_at L' j k * mat_at L' j k) [0..<K] 0
    \<and> spd' = (spd \<and> (\<forall>k<K. flt_eq (mat_at A k j) (mat_at A j k)))"
  using assms(3,4)
proof (induction K arbitrary: L' d' spd')
  case 0
  then show ?case using assms(1) by auto
next
  case (Suc K)
  obtain L1 d1 spd1 where f: "fold (cholesky_inner A j) [0..<K] (L, 0, spd) = (L1, d1, spd1)"
    by (metis prod_cases3)
  have K: "K \<le> ncols L" "K < ncols L" using Suc.prems(1) by simp_all
  note IH = Suc.IH [OF K(1) f]
  have step: "cholesky_inner A j K (L1, d1, spd1) = (L', d', spd')"
    using Suc.prems(2) f by simp
  have ok1: "mat_ok L1" "j < nrows L1" "K < ncols L1" using IH assms(2) K by simp_all
  note P = cholesky_inner_props [OF step ok1]
  have same: "mat_at L' j k = mat_at L1 j k" if "k < K" for k
    using P(4) [of j k] that ok1 K by simp
  have "fold (\<lambda>k d. d + mat_at L' j k * mat_at L' j k) [0..<K] 0
      = fold (\<lambda>k d. d + mat_at L1 j k * mat_at L1 j k) [0..<K] 0"
    by (rule fold_cong) (simp_all add: same)
  then have d: "d' = fold (\<lambda>k d. d + mat_at L' j k * mat_at L' j k) [0..<Suc K] 0"
    using P(5) IH by simp
  have frame: "mat_at L' r c = mat_at L r c"
    if "r < nrows L" "c < ncols L" "r \<noteq> j \<or> Suc K \<le> c" for r c
  proof -
    have "mat_at L' r c = mat_at L1 r c" using P(4) [of r c] that IH by auto
    also have "\<dots> = mat_at L r c" using IH that by auto
    finally show ?thesis .
  qed
  have s: "spd' = (spd \<and> (\<forall>k<Suc K. flt_eq (mat_at A k j) (mat_at A j k)))"
    using P(6) IH by (auto simp: less_Suc_eq)
  show ?case using P(1-3) IH d frame s by simp
qed

lemma cholesky_diag_term_cong:
  assumes "\<And>k. k < j \<Longrightarrow> mat_at L j k = mat_at L' j k"
  shows "cholesky_diag_term A L j = cholesky_diag_term A L' j"
proof -
  have "fold (\<lambda>k d. d + mat_at L j k * mat_at L j k) [0..<j] 0
      = fold (\<lambda>k d. d + mat_at L' j k * mat_at L' j k) [0..<j] 0"
    by (rule fold_cong) (simp_all add: assms)
  then show ?thesis by (simp add: cholesky_diag_term_def)
qed

lemma cholesky_row_props:
  assumes "mat_ok L" "nrows L = N" "ncols L = N" "j < N"
    and "cholesky_row A N j (L, spd) = (L', spd')"
  shows "mat_ok L'" "nrows L' = N" "ncols L' = N"
    "\<And>r c. r < N \<Longrightarrow> c < N \<Longrightarrow> r \<noteq> j \<Longrightarrow> mat_at L' r c = mat_at L r c"
    "\<And>k. j < k \<Longrightarrow> k < N \<Longrightarrow> mat_at L' j k = 0"
    "spd' = (spd \<and> (\<forall>k<j. flt_eq (mat_at A k j) (mat_at A j k)) \<and> 0 < cholesky_diag_term A L' j)"
proof -
  obtain L1 d1 spd1 where f: "fold (cholesky_inner A j) [0..<j] (L, 0, spd) = (L1, d1, spd1)"
    by (metis prod_cases3)
  have "j < nrows L" "j \<le> ncols L" using assms by simp_all
  note I = cholesky_inner_loop [OF assms(1) this f]
  define d2 where "d2 = mat_at A j j - d1"
  define L2 where "L2 = mat_set L1 j j (flt_sqrt (if d2 > 0 then d2 else 0))"
  have L': "L' = fold (\<lambda>k L. mat_set L (j) k ((\<lambda>r c. 0) j k)) [j + 1..<N] L2"
    and spd': "spd' = (spd1 \<and> d2 > 0)"
    using assms(5) f by (auto simp: cholesky_row_def Let_def d2_def L2_def)
  have ok2: "mat_ok L2" "nrows L2 = N" "ncols L2 = N" using I assms by (simp_all add: L2_def)
  have rng: "\<forall>k\<in>set [j + 1..<N]. j < nrows L2 \<and> k < ncols L2" using ok2 assms(4) by simp
  note F = fold_mat_set [OF ok2(1) rng, where h = "\<lambda>r c. 0", folded L']
  show "mat_ok L'" "nrows L' = N" "ncols L' = N" using F ok2 by simp_all
  have at2: "mat_at L2 r c = (if r = j \<and> c = j then flt_sqrt (if d2 > 0 then d2 else 0) else mat_at L1 r c)"
    if "r < N" "c < N" for r c
    unfolding L2_def using mat_at_set [of L1 j j r c] I assms that by simp
  have at': "mat_at L' r c = (if r = j \<and> j < c then 0 else mat_at L2 r c)"
    if "r < N" "c < N" for r c
  proof -
    have "(\<exists>k\<in>set [j + 1..<N]. j = r \<and> k = c) = (r = j \<and> j < c)" using that by auto
    then show ?thesis using F that ok2 by simp
  qed
  show "mat_at L' r c = mat_at L r c" if "r < N" "c < N" "r \<noteq> j" for r c
    using at' [OF that(1,2)] at2 [OF that(1,2)] I that assms by simp
  show "mat_at L' j k = 0" if "j < k" "k < N" for k
    using at' [of j k] that assms(4) by simp
  have "mat_at L' j k = mat_at L1 j k" if "k < j" for k
    using at' [of j k] at2 [of j k] that assms(4) by simp
  then have "cholesky_diag_term A L' j = cholesky_diag_term A L1 j"
    by (intro cholesky_diag_term_cong) simp
  also have "\<dots> = d2" using I by (simp add: cholesky_diag_term_def d2_def)
  finally show "spd' = (spd \<and> (\<forall>k<j. flt_eq (mat_at A k j) (mat_at A j k)) \<and> 0 < cholesky_diag_term A L' j)"
    using spd' I by auto
qed

lemma cholesky_outer_loop:
  assumes "mat_ok L0" "nrows L0 = N" "ncols L0 = N" "J \<le> N"
    and "fold (cholesky_row A N) [0..<J] (L0, True) = (L, spd)"
  shows "mat_ok L \<and> nrows L = N \<and> ncols L = N
    \<and> (\<forall>j<J. \<forall>k. j < k \<and> k < N \<longrightarrow> mat_at L j k = 0)
    \<and> spd = ((\<forall>j<J. \<forall>k<j. flt_eq (mat_at A k j) (mat_at A j k))
             \<and> (\<forall>j<J. 0 < cholesky_diag_term A L j))"
  using assms(4,5)
proof (induction J arbitrary: L spd)
  case 0
  then show ?case using assms(1-3) by simp
next
  case (Suc J)
  obtain L1 spd1 where f: "fold (cholesky_row A N) [0..<J] (L0, True) = (L1, spd1)"
    by (cases "fold (cholesky_row A N) [0..<J] (L0, True)")
  have J: "J \<le> N" "J < N" using Suc.prems(1) by simp_all
  note IH = Suc.IH [OF J(1) f]
  have step: "cholesky_row A N J (L1, spd1) = (L, spd)" using Suc.prems(2) f by simp
  have ok1: "mat_ok L1" "nrows L1 = N" "ncols L1 = N" using IH by simp_all
  note R = cholesky_row_props [OF ok1 J(2) step]
  have zero: "mat_at L j k = 0" if "j < Suc J" "j < k" "k < N" for j k
  proof (cases "j = J")
    case True
    then show ?thesis using R(5) that by simp
  next
    case False
    then have "j < J" using that by simp
    then show ?thesis using R(4) [of j k] IH that J by simp
  qed
  have dt: "cholesky_diag_term A L j = cholesky_diag_term A L1 j" if "j < J" for j
    using that J by (intro cholesky_diag_term_cong R(4)) simp_all
  have "spd = ((\<forall>j<Suc J. \<forall>k<j. flt_eq (mat_at A k j) (mat_at A j k))
             \<and> (\<forall>j<Suc J. 0 < cholesky_diag_term A L j))"
    using R(6) IH dt by (auto simp: less_Suc_eq)
  then show ?case using R(1-3) zero by simp
qed

text \<open>
  Claim C4, amended.  For every \<open>N\<close> by \<open>N\<close> input \<open>A\<close>, \<open>cholesky_decompose(A, L)\<close>
  returns true if and only if \<open>A(k, j) == A(j, k)\<close> holds exactly for every pair \<open>k < j\<close>
  and every diagonal term computed before its square root is strictly positive (a term
  equal to zero makes the flag false); and whatever the flag, the returned \<open>L\<close> is zero
  above the diagonal.
\<close>

theorem cholesky_flag_and_upper_triangle:
  assumes "mat_ok L0" "nrows L0 = nrows A" "ncols L0 = nrows A"
    and "cholesky_decompose A L0 = (spd, L)"
  shows "(spd \<longleftrightarrow> (\<forall>j<nrows A. \<forall>k<j. flt_eq (mat_at A k j) (mat_at A j k))
                 \<and> (\<forall>j<nrows A. 0 < cholesky_diag_term A L j))
       \<and> (\<forall>j<nrows A. \<forall>k. j < k \<and> k < nrows A \<longrightarrow> mat_at L j k = 0)"
proof -
  have "fold (cholesky_row A (nrows A)) [0..<nrows A] (L0, True) = (L, spd)"
    using assms(4) by (simp add: cholesky_decompose_def Let_def split: prod.splits)
  from cholesky_outer_loop [OF assms(1-3) order_refl this] show ?thesis by simp
qed


lemma Mat_default_2_2:
  "Mat_default 2 2 = \<lparr>nrows = 2, ncols = 2, m_buf = [undefined, undefined, undefined, undefined]\<rparr>"
  by (simp add: Mat_default_def eval_nat_numeral)

lemma cholesky_eval_1:
  "cholesky_decompose \<lparr>nrows = 2, ncols = 2, m_buf = [Fin 4, Fin 2, Fin 2, Fin 2]\<rparr> (Mat_default 2 2) =
     (True, \<lparr>nrows = 2, ncols = 2, m_buf = [Fin 2, Fin 1, Fin 0, Fin 1]\<rparr>)"
  by (simp add: cholesky_decompose_def cholesky_row_def cholesky_inner_def Mat_default_2_2
      eval_simps zero_flt_def minus_flt_def flt_eq_def)

lemma cholesky_eval_2:
  "cholesky_decompose \<lparr>nrows = 2, ncols = 2, m_buf = [Fin 1, Fin 1, Fin 1, Fin 1]\<rparr> (Mat_default 2 2) =
     (False, \<lparr>nrows = 2, ncols = 2, m_buf = [Fin 1, Fin 1, Fin 0, Fin 0]\<rparr>)"
  by (simp add: cholesky_decompose_def cholesky_row_def cholesky_inner_def Mat_default_2_2
      eval_simps zero_flt_def minus_flt_def flt_eq_def)

theorem cholesky_flag_and_upper_triangle_witness:
  "mat_ok (Mat_default 2 2 :: flt Mat)
   \<and> cholesky_decompose \<lparr>nrows = 2, ncols = 2, m_buf = [Fin 4, Fin 2, Fin 2, Fin 2]\<rparr> (Mat_default 2 2) =
     (True, \<lparr>nrows = 2, ncols = 2, m_buf = [Fin 2, Fin 1, Fin 0, Fin 1]\<rparr>)
   \<and> flt_eq (mat_at \<lparr>nrows = 2, ncols = 2, m_buf = [Fin 4, Fin 2, Fin 2, Fin 2]\<rparr> 0 1)
             (mat_at \<lparr>nrows = 2, ncols = 2, m_buf = [Fin 4, Fin 2, Fin 2, Fin 2]\<rparr> 1 0)
   \<and> 0 < cholesky_diag_term \<lparr>nrows = 2, ncols = 2, m_buf = [Fin 4, Fin 2, Fin 2, Fin 2]\<rparr>
             \<lparr>nrows = 2, ncols = 2, m_buf = [Fin 2, Fin 1, Fin 0, Fin 1]\<rparr> 0
   \<and> 0 < cholesky_diag_term \<lparr>nrows = 2, ncols = 2, m_buf = [Fin 4, Fin 2, Fin 2, Fin 2]\<rparr>
             \<lparr>nrows = 2, ncols = 2, m_buf = [Fin 2, Fin 1, Fin 0, Fin 1]\<rparr> 1
   \<and> mat_at \<lparr>nrows = 2, ncols = 2, m_buf = [Fin 2, Fin 1, Fin 0, Fin 1]\<rparr> 0 1 = 0"
proof -
  note t = cholesky_flag_and_upper_triangle [OF _ _ _ cholesky_eval_1, unfolded Mat.simps]
  have ok: "mat_ok (Mat_default 2 2 :: flt Mat)" "nrows (Mat_default 2 2 :: flt Mat) = 2"
    "ncols (Mat_default 2 2 :: flt Mat) = 2" by simp_all
  note t' = t [OF ok]
  have 1: "(0::nat) < 2" "(1::nat) < 2" "(0::nat) < 1" by simp_all
  from t' have sym: "\<forall>j<2. \<forall>k<j. flt_eq (mat_at \<lparr>nrows = 2, ncols = 2, m_buf = [Fin 4, Fin 2, Fin 2, Fin 2]\<rparr> k j)
             (mat_at \<lparr>nrows = 2, ncols = 2, m_buf = [Fin 4, Fin 2, Fin 2, Fin 2]\<rparr> j k)"
    and pos: "\<forall>j<2. 0 < cholesky_diag_term \<lparr>nrows = 2, ncols = 2, m_buf = [Fin 4, Fin 2, Fin 2, Fin 2]\<rparr>
             \<lparr>nrows = 2, ncols = 2, m_buf = [Fin 2, Fin 1, Fin 0, Fin 1]\<rparr> j"
    and up: "\<forall>j<2. \<forall>k. j < k \<and> k < 2 \<longrightarrow>
         mat_at \<lparr>nrows = 2, ncols = 2, m_buf = [Fin 2, Fin 1, Fin 0, Fin 1]\<rparr> j k = 0"
    by blast+
  from sym 1 have "flt_eq (mat_at \<lparr>nrows = 2, ncols = 2, m_buf = [Fin 4, Fin 2, Fin 2, Fin 2]\<rparr> 0 1)
             (mat_at \<lparr>nrows = 2, ncols = 2, m_buf = [Fin 4, Fin 2, Fin 2, Fin 2]\<rparr> 1 0)" by blast
  moreover from pos 1 have "0 < cholesky_diag_term \<lparr>nrows = 2, ncols = 2, m_buf = [Fin 4, Fin 2, Fin 2, Fin 2]\<rparr>
             \<lparr>nrows = 2, ncols = 2, m_buf = [Fin 2, Fin 1, Fin 0, Fin 1]\<rparr> 0"
     "0 < cholesky_diag_term \<lparr>nrows = 2, ncols = 2, m_buf = [Fin 4, Fin 2, Fin 2, Fin 2]\<rparr>
             \<lparr>nrows = 2, ncols = 2, m_buf = [Fin 2, Fin 1, Fin 0, Fin 1]\<rparr> 1" by blast+
  moreover from up 1 have "mat_at \<lparr>nrows = 2, ncols = 2, m_buf = [Fin 2, Fin 1, Fin 0, Fin 1]\<rparr> 0 1 = 0"
    by blast
  ultimately show ?thesis using ok(1) cholesky_eval_1 by blast
qed

text \<open>
  Claim C4, as stated, fails: the matrix \<open>[[1, 1], [1, 1]]\<close> is symmetric and both of
  its diagonal terms (1 and 0) are at least zero, and the function returns false.
\<close>

theorem cholesky_flag_counterexample:
  "cholesky_decompose \<lparr>nrows = 2, ncols = 2, m_buf = [Fin 1, Fin 1, Fin 1, Fin 1]\<rparr> (Mat_default 2 2) =
     (False, \<lparr>nrows = 2, ncols = 2, m_buf = [Fin 1, Fin 1, Fin 0, Fin 0]\<rparr>)
   \<and> flt_eq (mat_at \<lparr>nrows = 2, ncols = 2, m_buf = [Fin 1, Fin 1, Fin 1, Fin 1]\<rparr> 0 1)
             (mat_at \<lparr>nrows = 2, ncols = 2, m_buf = [Fin 1, Fin 1, Fin 1, Fin 1]\<rparr> 1 0)
   \<and> 0 \<le> cholesky_diag_term \<lparr>nrows = 2, ncols = 2, m_buf = [Fin 1, Fin 1, Fin 1, Fin 1]\<rparr>
             \<lparr>nrows = 2, ncols = 2, m_buf = [Fin 1, Fin 1, Fin 0, Fin 0]\<rparr> 0
   \<and> 0 \<le> cholesky_diag_term \<lparr>nrows = 2, ncols = 2, m_buf = [Fin 1, Fin 1, Fin 1, Fin 1]\<rparr>
             \<lparr>nrows = 2, ncols = 2, m_buf = [Fin 1, Fin 1, Fin 0, Fin 0]\<rparr> 1"
  using cholesky_eval_2
  by (simp add: cholesky_diag_term_def flt_eq_def mat_at_code less_eq_flt_def zero_flt_def
      minus_flt_def upt_small)


section \<open>Gauss-Jordan elimination in place: the exchange invariant\<close>

lemma swap_idx_simps [simp]:
  "swap_idx a b a = b" "swap_idx a b b = a" "i \<noteq> a \<Longrightarrow> i \<noteq> b \<Longrightarrow> swap_idx a b i = i"
  "swap_idx a b (swap_idx a b i) = i" "swap_idx a a i = i"
  by (auto simp: swap_idx_def)


lemma swap_idx_eq_iff [simp]: "swap_idx a b i = swap_idx a b j \<longleftrightarrow> i = j"
  by (metis swap_idx_simps(4))











section \<open>The loops of the matrix operations, coefficient by coefficient\<close>














lemma mat_set_twice [simp]: "mat_set (mat_set m r c v) r c w = mat_set m r c w"
  by (simp add: mat_set_def)




section \<open>The generic inverse\<close>

















section \<open>The generic inverse: what a run returns\<close>












section \<open>The closed-form determinants under row swaps and on a product of factors\<close>















section \<open>The loops of a column of the LU decomposition\<close>





section \<open>The invariant of the LU decomposition\<close>



section \<open>The generic determinant and the closed forms\<close>














end
